theory Spec2Isabelle
  imports Main "HOL-Library.Sublist"
begin

section \<open>Errors, byte streams and the records handed to the handler\<close>

text \<open>
  A Go \<^verbatim>\<open>error\<close> value reaching the stream package is either the sentinel
  \<^verbatim>\<open>io.EOF\<close> or an error known by its message (\<^verbatim>\<open>err.Error()\<close>).
  Go strings and byte slices are both sequences of bytes, hence \<^typ>\<open>string\<close>.
\<close>

datatype go_error = EOF | GoError string

type_synonym bytes = string

abbreviation newline :: char where
  "newline \<equiv> CHR 0x0A"

text \<open>
  An \<^verbatim>\<open>io.Reader\<close> is the script of the results its successive \<^verbatim>\<open>Read\<close> calls return:
  the bytes read (at most the 4096 of the scanner's buffer) and the error returned with
  them. Once the script is used up the reader reports \<^verbatim>\<open>(0, io.EOF)\<close>.
\<close>

type_synonym read_result = "bytes \<times> go_error option"
type_synonym reader = "read_result list"

record scanner =
  reader :: reader
  token :: bytes
  err :: "go_error option"

definition NewScanner :: "reader \<Rightarrow> scanner" where
  "NewScanner r = \<lparr>reader = r, token = [], err = None\<rparr>"

text \<open>
  The loop of \<^verbatim>\<open>Scan\<close>: \<open>tok\<close> is the local \<^verbatim>\<open>token\<close>, the list is what the
  reader has yet to return. On a chunk with a newline the bytes before the first newline
  complete the token and \<^verbatim>\<open>Scan\<close> returns at once: the rest of the chunk stays in
  \<^verbatim>\<open>s.buf\<close>, which the next \<^verbatim>\<open>Read\<close> overwrites, and the error returned with the
  chunk is not looked at.
\<close>

fun scanLoop :: "scanner \<Rightarrow> bytes \<Rightarrow> reader \<Rightarrow> bool \<times> scanner" where
  "scanLoop s tok [] =
     (if tok \<noteq> [] then (True, s\<lparr>reader := [], token := tok, err := Some EOF\<rparr>)
      else (False, s\<lparr>reader := [], err := Some EOF\<rparr>))"
| "scanLoop s tok ((chunk, e) # rs) =
     (if newline \<in> set chunk
      then (True, s\<lparr>reader := rs, token := tok @ takeWhile (\<lambda>c. c \<noteq> newline) chunk\<rparr>)
      else (case e of
              None \<Rightarrow> scanLoop s (tok @ chunk) rs
            | Some er \<Rightarrow>
                (if er = EOF \<and> tok @ chunk \<noteq> []
                 then (True, s\<lparr>reader := rs, token := tok @ chunk, err := Some er\<rparr>)
                 else (False, s\<lparr>reader := rs, err := Some er\<rparr>))))"

definition Scan :: "scanner \<Rightarrow> bool \<times> scanner" where
  "Scan s = (if err s \<noteq> None then (False, s) else scanLoop s [] (reader s))"

definition Text :: "scanner \<Rightarrow> string" where
  "Text s = token s"

definition Bytes :: "scanner \<Rightarrow> bytes" where
  "Bytes s = token s"

definition Err :: "scanner \<Rightarrow> go_error option" where
  "Err s = (if err s = Some EOF then None else err s)"

text \<open>
  \<^verbatim>\<open>Scan\<close> cannot return true for ever: each time it does, the script of the reader has
  become shorter or the error of the scanner has been set. \<open>scanAll\<close> lists the lines a
  scanner yields until \<^verbatim>\<open>Scan\<close> first returns false.
\<close>

definition scanMeasure :: "scanner \<Rightarrow> nat" where
  "scanMeasure s = length (reader s) + (if err s = None then 1 else 0)"

lemma scanLoop_measure:
  "scanLoop s tok rs = (True, s') \<Longrightarrow> scanMeasure s' < Suc (length rs)"
  by (induction s tok rs rule: scanLoop.induct)
     (auto simp: scanMeasure_def split: if_splits option.splits)

lemma Scan_measure: "(True, s') = Scan s \<Longrightarrow> scanMeasure s' < scanMeasure s"
  by (auto simp: Scan_def scanMeasure_def split: if_splits dest: scanLoop_measure [OF sym])

function scanAll :: "scanner \<Rightarrow> string list" where
  "scanAll s = (case Scan s of (False, s') \<Rightarrow> [] | (True, s') \<Rightarrow> Text s' # scanAll s')"
  by pat_completeness auto
termination
  by (relation "measure scanMeasure") (auto dest: Scan_measure)

section \<open>The streamer\<close>

text \<open>
  \<^verbatim>\<open>LogMessage\<close> without its \<^verbatim>\<open>Timestamp\<close>: the wall-clock reading of
  \<^verbatim>\<open>time.Now()\<close> is outside the model.
\<close>

record LogMessage =
  Namespace :: string
  PodName :: string
  ContainerName :: string
  Message :: string
  Raw :: bytes

record LogStreamError =
  Err' :: go_error
  Permanent :: bool
  Reason :: string

definition NewLogStreamError :: "go_error \<Rightarrow> bool \<Rightarrow> string \<Rightarrow> LogStreamError" where
  "NewLogStreamError e permanent reason = \<lparr>Err' = e, Permanent = permanent, Reason = reason\<rparr>"

text \<open>The handler is the sequence of callbacks it has received.\<close>

datatype event = OnLog LogMessage | OnError LogStreamError | OnEnd

text \<open>A compiled regular expression is used through \<^verbatim>\<open>MatchString\<close> only.\<close>

type_synonym regexp = "string \<Rightarrow> bool"

record LogFilter =
  PodNameRegex :: "regexp option"
  ContainerRegex :: "regexp option"
  LabelSelector :: "string option"
  IncludeRegex :: "regexp option"
  Since :: "int option"
  ContainerState :: string
  Namespaces :: "string list"

text \<open>
  \<^verbatim>\<open>Multiplier\<close> stands for the map \<^verbatim>\<open>b \<mapsto> time.Duration(float64(b) * Multiplier)\<close>;
  the floating-point product itself is not modelled. Durations are nanoseconds.
\<close>

record RetryPolicy =
  MaxRetries :: int
  InitialInterval :: int
  MaxInterval :: int
  Multiplier :: "int \<Rightarrow> int"

text \<open>
  A \<^verbatim>\<open>MultilineMatcher\<close> is an object: the fields its \<^verbatim>\<open>ShouldMerge\<close> may read and
  write (\<open>mstate\<close>), and the method, which returns its result and the fields after the call.
\<close>

record 'm MultilineMatcher =
  mstate :: 'm
  ShouldMerge :: "'m \<Rightarrow> string \<Rightarrow> string \<Rightarrow> bool \<times> 'm"

definition callShouldMerge ::
  "'m MultilineMatcher \<Rightarrow> string \<Rightarrow> string \<Rightarrow> bool \<times> 'm MultilineMatcher" where
  "callShouldMerge m previous next =
     (case ShouldMerge m (mstate m) previous next of (b, st) \<Rightarrow> (b, m\<lparr>mstate := st\<rparr>))"

record Pod =
  Name :: string
  PodNamespace :: string
  Containers :: "string list"
  Phase :: string

text \<open>
  Of the clientset, \<^verbatim>\<open>CoreV1().Pods(ns).List\<close> with a label selector. The goroutines a
  streamer has launched are kept in \<open>goroutines\<close>; \<open>wg\<close> is the counter of the wait group.
\<close>

record clientset =
  ListPods :: "string \<Rightarrow> string \<Rightarrow> go_error + Pod list"

datatype worker = Watcher string | Follower string string string

record 'm Streamer =
  clientset :: clientset
  filter' :: LogFilter
  handler :: "event list"
  formatter :: "LogMessage \<Rightarrow> string"
  matcher :: "'m MultilineMatcher option"
  retryPolicy :: RetryPolicy
  maxMultilines :: int
  active :: "string \<rightharpoonup> bool"
  stopped :: bool
  stopOnce :: bool
  stopCh :: bool
  wg :: nat
  goroutines :: "worker list"

section \<open>Classification of errors\<close>

fun Contains :: "string \<Rightarrow> string \<Rightarrow> bool" where
  "Contains [] substr = (substr = [])"
| "Contains (c # cs) substr = (prefix substr (c # cs) \<or> Contains cs substr)"

definition IsPodDeletedError :: "go_error option \<Rightarrow> bool" where
  "IsPodDeletedError e =
     (case e of
        None \<Rightarrow> False
      | Some EOF \<Rightarrow> True
      | Some (GoError errStr) \<Rightarrow>
          Contains errStr ''container not found'' \<or> Contains errStr ''pod not found'' \<or>
          Contains errStr ''has been terminated'' \<or> Contains errStr ''has been deleted'')"

definition isPermError :: "go_error \<Rightarrow> bool" where
  "isPermError e = False"

section \<open>Processing one log stream\<close>

text \<open>
  Cancellation: \<open>ctx\<close> lists, for the \<^verbatim>\<open>select\<close> statements still to come, whether
  that one finds \<^verbatim>\<open>ctx.Done()\<close> or \<^verbatim>\<open>s.stopCh\<close> ready; past its end none does.
  A channel found closed stays closed for every later \<^verbatim>\<open>select\<close>.
\<close>

definition ctxDone :: "bool list \<Rightarrow> bool \<times> bool list" where
  "ctxDone ctx = (case ctx of [] \<Rightarrow> (False, []) | b # bs \<Rightarrow> (b, if b then ctx else bs))"

definition includeMatches :: "'m Streamer \<Rightarrow> string \<Rightarrow> bool" where
  "includeMatches s line =
     (case IncludeRegex (filter' s) of None \<Rightarrow> True | Some re \<Rightarrow> re line)"

definition deliver :: "'m Streamer \<Rightarrow> LogMessage \<Rightarrow> 'm Streamer" where
  "deliver s msg = s\<lparr>handler := handler s @ [OnLog (msg\<lparr>Message := formatter s msg\<rparr>)]\<rparr>"

text \<open>The code after the scanning loop, the same in both processing functions.\<close>

definition afterScan ::
  "'m Streamer \<Rightarrow> scanner \<Rightarrow> string \<Rightarrow> LogStreamError option \<times> 'm Streamer" where
  "afterScan s sc podName =
     (case Err sc of
        None \<Rightarrow> (None, s)
      | Some e \<Rightarrow>
          if IsPodDeletedError (Some e) then (None, s\<lparr>active := (active s)(podName := None)\<rparr>)
          else if isPermError e
          then (Some (NewLogStreamError e True ''log stream read error''), s)
          else (Some (NewLogStreamError e False ''log stream read error''), s))"

text \<open>The body of the loop of the single-line path, for the line just scanned.\<close>

definition singleLineStep ::
  "'m Streamer \<Rightarrow> string \<Rightarrow> string \<Rightarrow> string \<Rightarrow> string \<Rightarrow> bytes \<Rightarrow> 'm Streamer" where
  "singleLineStep s podName containerName namespace line raw =
     (if \<not> includeMatches s line then s
      else deliver s \<lparr>Namespace = namespace, PodName = podName, ContainerName = containerName,
                      Message = line, Raw = raw\<rparr>)"

function singleLineLoop ::
  "'m Streamer \<Rightarrow> bool list \<Rightarrow> scanner \<Rightarrow> string \<Rightarrow> string \<Rightarrow> string \<Rightarrow>
   LogStreamError option \<times> 'm Streamer \<times> bool list" where
  "singleLineLoop s ctx sc podName containerName namespace =
     (case Scan sc of
        (False, sc') \<Rightarrow>
          (case afterScan s sc' podName of (e, s') \<Rightarrow> (e, s', ctx))
      | (True, sc') \<Rightarrow>
          (case ctxDone ctx of
             (True, ctx') \<Rightarrow> (None, s, ctx')
           | (False, ctx') \<Rightarrow>
               singleLineLoop
                 (singleLineStep s podName containerName namespace (Text sc') (Bytes sc'))
                 ctx' sc' podName containerName namespace))"
  by pat_completeness auto
termination
  by (relation "measure (\<lambda>(s, ctx, sc, p, c, n). scanMeasure sc)") (auto dest: Scan_measure)

text \<open>
  The state of the reassembly loop: the local variables \<^verbatim>\<open>buffer\<close>, \<^verbatim>\<open>rawBuffer\<close>
  and \<^verbatim>\<open>lastLine\<close> of \<^verbatim>\<open>processMultilineLogStream\<close>.
\<close>

record reassembly =
  buffer :: "string list"
  rawBuffer :: "bytes list"
  lastLine :: string

fun joinLines :: "string list \<Rightarrow> string" where
  "joinLines [] = []"
| "joinLines [l] = l"
| "joinLines (l # ls) = l @ newline # joinLines ls"

definition flush ::
  "'m Streamer \<Rightarrow> string \<Rightarrow> string \<Rightarrow> string \<Rightarrow> reassembly \<Rightarrow> 'm Streamer \<times> reassembly" where
  "flush s podName containerName namespace st =
     (if length (buffer st) = 0 then (s, st)
      else
        let message = joinLines (buffer st) in
        if \<not> includeMatches s message then (s, st\<lparr>buffer := [], rawBuffer := []\<rparr>)
        else
          (deliver s \<lparr>Namespace = namespace, PodName = podName, ContainerName = containerName,
                      Message = message, Raw = joinLines (rawBuffer st)\<rparr>,
           st\<lparr>buffer := [], rawBuffer := []\<rparr>))"

text \<open>
  \<^verbatim>\<open>processMultilineLogStream\<close> is only called with \<^verbatim>\<open>s.matcher\<close> not nil; the matcher
  object is the argument \<open>m\<close>, and is stored back in the streamer when the function returns.
  \<open>multilineStep\<close> is the body of its loop, for the line just scanned.
\<close>

definition multilineStep ::
  "'m Streamer \<Rightarrow> 'm MultilineMatcher \<Rightarrow> string \<Rightarrow> string \<Rightarrow> string \<Rightarrow> reassembly \<Rightarrow>
   string \<Rightarrow> bytes \<Rightarrow> 'm Streamer \<times> 'm MultilineMatcher \<times> reassembly" where
  "multilineStep s m podName containerName namespace st line raw =
     (if length (buffer st) = 0
      then (s, m, st\<lparr>buffer := buffer st @ [line], rawBuffer := rawBuffer st @ [raw],
                      lastLine := line\<rparr>)
      else
        (case callShouldMerge m (lastLine st) line of
           (True, m') \<Rightarrow>
             (let st1 = st\<lparr>buffer := buffer st @ [line], rawBuffer := rawBuffer st @ [raw],
                            lastLine := line\<rparr>
              in if int (length (buffer st1)) \<ge> maxMultilines s
                 then (case flush s podName containerName namespace st1 of
                         (s1, st2) \<Rightarrow> (s1, m', st2))
                 else (s, m', st1))
         | (False, m') \<Rightarrow>
             (case flush s podName containerName namespace st of
                (s1, st1) \<Rightarrow>
                  (s1, m', st1\<lparr>buffer := buffer st1 @ [line],
                                 rawBuffer := rawBuffer st1 @ [raw], lastLine := line\<rparr>))))"

function multilineLoop ::
  "'m Streamer \<Rightarrow> 'm MultilineMatcher \<Rightarrow> bool list \<Rightarrow> scanner \<Rightarrow> string \<Rightarrow> string \<Rightarrow> string \<Rightarrow>
   reassembly \<Rightarrow> LogStreamError option \<times> 'm Streamer \<times> bool list" where
  "multilineLoop s m ctx sc podName containerName namespace st =
     (case Scan sc of
        (False, sc') \<Rightarrow>
          (case flush s podName containerName namespace st of
             (s1, st1) \<Rightarrow>
               (case afterScan s1 sc' podName of
                  (e, s2) \<Rightarrow> (e, s2\<lparr>matcher := Some m\<rparr>, ctx)))
      | (True, sc') \<Rightarrow>
          (case ctxDone ctx of
             (True, ctx') \<Rightarrow> (None, s\<lparr>matcher := Some m\<rparr>, ctx')
           | (False, ctx') \<Rightarrow>
               (case multilineStep s m podName containerName namespace st (Text sc') (Bytes sc') of
                  (s1, m1, st1) \<Rightarrow>
                    multilineLoop s1 m1 ctx' sc' podName containerName namespace st1)))"
  by pat_completeness auto
termination
  by (relation "measure (\<lambda>(s, m, ctx, sc, p, c, n, st). scanMeasure sc)") (auto dest: Scan_measure)

definition processMultilineLogStream ::
  "'m Streamer \<Rightarrow> 'm MultilineMatcher \<Rightarrow> bool list \<Rightarrow> reader \<Rightarrow> string \<Rightarrow> string \<Rightarrow> string \<Rightarrow>
   LogStreamError option \<times> 'm Streamer \<times> bool list" where
  "processMultilineLogStream s m ctx stream podName containerName namespace =
     multilineLoop s m ctx (NewScanner stream) podName containerName namespace
       \<lparr>buffer = [], rawBuffer = [], lastLine = []\<rparr>"

definition processLogStream ::
  "'m Streamer \<Rightarrow> bool list \<Rightarrow> reader \<Rightarrow> string \<Rightarrow> string \<Rightarrow> string \<Rightarrow>
   LogStreamError option \<times> 'm Streamer \<times> bool list" where
  "processLogStream s ctx stream podName containerName namespace =
     (case matcher s of
        Some m \<Rightarrow> processMultilineLogStream s m ctx stream podName containerName namespace
      | None \<Rightarrow> singleLineLoop s ctx (NewScanner stream) podName containerName namespace)"


section \<open>The follower of one container\<close>

text \<open>
  The goroutine \<^verbatim>\<open>startPodLogStreamer\<close> launches for a container. Its environment is the
  script \<open>opens\<close> of the results of its successive \<^verbatim>\<open>req.Stream(ctx)\<close> calls, an error or
  a stream to read. \<open>retry\<close> and \<open>backoff\<close> are the local variables of the loop; \<open>attempts\<close>
  counts the calls of \<^verbatim>\<open>req.Stream\<close> and \<open>slept\<close> lists the backoff sleeps that ran to
  their end. The loop has no bound of its own: when the script is used up the follower is
  \<open>Opening\<close>, about to call \<^verbatim>\<open>req.Stream\<close> once more.
\<close>

datatype outcome = Exited | Opening

record follower =
  retry :: int
  backoff :: int
  attempts :: nat
  slept :: "int list"

definition streamFailedReason :: "string \<Rightarrow> string \<Rightarrow> string" where
  "streamFailedReason podName containerName =
     ''failed to stream logs for pod '' @ podName @ '' container '' @ containerName"

definition retriesExceededReason :: "string \<Rightarrow> string \<Rightarrow> string" where
  "retriesExceededReason podName containerName =
     ''log stream retries exceeded for pod '' @ podName @ '' container '' @ containerName"

definition report :: "'m Streamer \<Rightarrow> LogStreamError \<Rightarrow> 'm Streamer" where
  "report s e = s\<lparr>handler := handler s @ [OnError e]\<rparr>"

text \<open>The backoff for the next retry, computed after a sleep that was not interrupted.\<close>

definition nextBackoff :: "RetryPolicy \<Rightarrow> int \<Rightarrow> int" where
  "nextBackoff rp b =
     (let b' = Multiplier rp b in if b' > MaxInterval rp then MaxInterval rp else b')"

datatype 'm iteration =
  Return "'m Streamer" follower
| Continue "'m Streamer" "bool list" follower

text \<open>
  One turn of the loop, from the call of \<^verbatim>\<open>req.Stream\<close> (whose result is \<open>opened\<close>) to
  the end of the loop body: the follower returns, or goes on to the next turn.
\<close>

definition followerIteration ::
  "'m Streamer \<Rightarrow> bool list \<Rightarrow> go_error + reader \<Rightarrow> string \<Rightarrow> string \<Rightarrow> string \<Rightarrow> follower \<Rightarrow>
   'm iteration" where
  "followerIteration s ctx opened podName containerName namespace f =
     (case opened of
        Inl e \<Rightarrow>
          (let f1 = f\<lparr>attempts := attempts f + 1\<rparr> in
           if isPermError e
           then Return
                  (report s (NewLogStreamError e True (streamFailedReason podName containerName)))
                  f1
           else
             (let s1 = report s
                         (NewLogStreamError e False (streamFailedReason podName containerName));
                  f2 = f1\<lparr>retry := retry f1 + 1\<rparr>
              in if retry f2 > MaxRetries (retryPolicy s)
                 then Return
                        (report s1 (NewLogStreamError (GoError ''exceeded maximum retries'') True
                                      (retriesExceededReason podName containerName)))
                        f2
                 else
                   (case ctxDone ctx of
                      (True, ctx1) \<Rightarrow> Return s1 f2
                    | (False, ctx1) \<Rightarrow>
                        Continue s1 ctx1
                          (f2\<lparr>slept := slept f2 @ [backoff f2],
                               backoff := nextBackoff (retryPolicy s) (backoff f2)\<rparr>))))
      | Inr stream \<Rightarrow>
          (let f1 = f\<lparr>attempts := attempts f + 1, retry := 0,
                       backoff := InitialInterval (retryPolicy s)\<rparr> in
           case processLogStream s ctx stream podName containerName namespace of
             (e, s1, ctx1) \<Rightarrow>
               (case ctxDone ctx1 of
                  (True, ctx2) \<Rightarrow> Return s1 f1
                | (False, ctx2) \<Rightarrow>
                    (case e of
                       None \<Rightarrow> Continue s1 ctx2 f1
                     | Some lse \<Rightarrow>
                         if Permanent lse then Return (report s1 lse) f1
                         else
                           (let s2 = report s1 lse in
                            case ctxDone ctx2 of
                              (True, ctx3) \<Rightarrow> Return s2 f1
                            | (False, ctx3) \<Rightarrow>
                                Continue s2 ctx3
                                  (f1\<lparr>slept := slept f1 @ [backoff f1],
                                       backoff := nextBackoff (retryPolicy s) (backoff f1)\<rparr>))))))"

fun followerOf :: "'m iteration \<Rightarrow> follower" where
  "followerOf (Return s f) = f"
| "followerOf (Continue s ctx f) = f"

fun followerLoop ::
  "'m Streamer \<Rightarrow> bool list \<Rightarrow> (go_error + reader) list \<Rightarrow> string \<Rightarrow> string \<Rightarrow> string \<Rightarrow>
   follower \<Rightarrow> outcome \<times> 'm Streamer \<times> follower" where
  "followerLoop s ctx opens podName containerName namespace f =
     (case ctxDone ctx of
        (True, ctx1) \<Rightarrow> (Exited, s, f)
      | (False, ctx1) \<Rightarrow>
          (case opens of
             [] \<Rightarrow> (Opening, s, f)
           | opened # rest \<Rightarrow>
               (case followerIteration s ctx1 opened podName containerName namespace f of
                  Return s1 f1 \<Rightarrow> (Exited, s1, f1)
                | Continue s1 ctx2 f1 \<Rightarrow>
                    followerLoop s1 ctx2 rest podName containerName namespace f1)))"

definition newFollower :: "'m Streamer \<Rightarrow> follower" where
  "newFollower s =
     \<lparr>retry = 0, backoff = InitialInterval (retryPolicy s), attempts = 0, slept = []\<rparr>"

section \<open>Construction, start and stop\<close>

fun Error :: "go_error \<Rightarrow> string" where
  "Error EOF = ''EOF''"
| "Error (GoError msg) = msg"

text \<open>
  \<open>KubeClientProvider\<close> is nil or a provider, given by what its \<^verbatim>\<open>GetClientset\<close>
  returns; \<open>Handler\<close> is nil or a handler, given by the callbacks it has received.
\<close>

record 'm StreamerConfig =
  KubeClientProvider :: "(go_error + clientset) option"
  Filter :: "LogFilter option"
  Handler :: "event list option"
  Formatter :: "(LogMessage \<Rightarrow> string) option"
  Matcher :: "'m MultilineMatcher option"
  RetryPolicy :: RetryPolicy
  MaxMultilines :: int

definition DefaultMaxMultilines :: int where
  "DefaultMaxMultilines = 500"

definition passthroughFormatter :: "LogMessage \<Rightarrow> string" where
  "passthroughFormatter msg = Message msg"

definition NewStreamer :: "'m StreamerConfig \<Rightarrow> go_error + 'm Streamer" where
  "NewStreamer config =
     (case KubeClientProvider config of
        None \<Rightarrow> Inl (GoError ''kubernetes client provider is required'')
      | Some (Inl e) \<Rightarrow> Inl (GoError (''failed to create kubernetes clientset: '' @ Error e))
      | Some (Inr cs) \<Rightarrow>
          (case Filter config of
             None \<Rightarrow> Inl (GoError ''log filter is required'')
           | Some flt \<Rightarrow>
               (case Handler config of
                  None \<Rightarrow> Inl (GoError ''log handler is required'')
                | Some h \<Rightarrow>
                    Inr \<lparr>clientset = cs, filter' = flt, handler = h,
                         formatter = (case Formatter config of
                                        None \<Rightarrow> passthroughFormatter | Some fm \<Rightarrow> fm),
                         matcher = Matcher config,
                         retryPolicy = RetryPolicy config,
                         maxMultilines = (if MaxMultilines config \<le> 0 then DefaultMaxMultilines
                                          else MaxMultilines config),
                         active = Map.empty, stopped = False, stopOnce = False, stopCh = False,
                         wg = 0, goroutines = []\<rparr>)))"

definition shouldStreamPod :: "'m Streamer \<Rightarrow> Pod \<Rightarrow> bool" where
  "shouldStreamPod s pod =
     (case PodNameRegex (filter' s) of None \<Rightarrow> True | Some re \<Rightarrow> re (Name pod))"

text \<open>
  What \<^verbatim>\<open>startPodLogStreamer\<close> does before it returns: it marks the pod active and
  launches one follower for each container that passes the container regex. The state of
  the container is not looked at: the branch on \<^verbatim>\<open>ContainerState\<close> is empty in the code.
\<close>

fun launchFollowers :: "'m Streamer \<Rightarrow> Pod \<Rightarrow> string list \<Rightarrow> 'm Streamer" where
  "launchFollowers s pod [] = s"
| "launchFollowers s pod (container # cs) =
     (if (case ContainerRegex (filter' s) of None \<Rightarrow> False | Some re \<Rightarrow> \<not> re container)
      then launchFollowers s pod cs
      else launchFollowers
             (s\<lparr>wg := wg s + 1,
                goroutines := goroutines s @ [Follower (Name pod) container (PodNamespace pod)]\<rparr>)
             pod cs)"

definition startPodLogStreamer :: "'m Streamer \<Rightarrow> Pod \<Rightarrow> 'm Streamer" where
  "startPodLogStreamer s pod =
     launchFollowers (s\<lparr>active := (active s)(Name pod \<mapsto> True)\<rparr>) pod (Containers pod)"

fun streamExistingPods :: "'m Streamer \<Rightarrow> Pod list \<Rightarrow> 'm Streamer" where
  "streamExistingPods s [] = s"
| "streamExistingPods s (pod # pods) =
     streamExistingPods (if shouldStreamPod s pod then startPodLogStreamer s pod else s) pods"

text \<open>
  The loop of \<^verbatim>\<open>startPodWatcher\<close> over the namespaces still to be started: list the
  pods, start their followers, launch the watcher of the namespace.
\<close>

fun watchNamespaces :: "'m Streamer \<Rightarrow> string list \<Rightarrow> LogStreamError option \<times> 'm Streamer" where
  "watchNamespaces s [] = (None, s)"
| "watchNamespaces s (namespace # rest) =
     (let labelSelector = (case LabelSelector (filter' s) of None \<Rightarrow> [] | Some sel \<Rightarrow> sel) in
      case ListPods (clientset s) namespace labelSelector of
        Inl e \<Rightarrow> (Some (NewLogStreamError e True ''failed to list pods''), s)
      | Inr pods \<Rightarrow>
          (let s1 = streamExistingPods s pods in
           watchNamespaces
             (s1\<lparr>wg := wg s1 + 1, goroutines := goroutines s1 @ [Watcher namespace]\<rparr>) rest))"

definition startPodWatcher :: "'m Streamer \<Rightarrow> LogStreamError option \<times> 'm Streamer" where
  "startPodWatcher s = watchNamespaces s (Namespaces (filter' s))"

text \<open>
  \<^verbatim>\<open>Start\<close>. The goroutine that links \<^verbatim>\<open>stopCh\<close> to the cancellation of the context
  is not counted in the wait group and is not recorded.
\<close>

definition Start :: "'m Streamer \<Rightarrow> LogStreamError option \<times> 'm Streamer" where
  "Start s =
     (if stopped s
      then (Some (NewLogStreamError (GoError ''streamer is stopped'') True ''streamer stopped''), s)
      else startPodWatcher s)"

text \<open>
  \<^verbatim>\<open>Stop\<close>: \<open>stopOnce\<close> tells whether the \<^verbatim>\<open>sync.Once\<close> has run. \<^verbatim>\<open>wg.Wait()\<close>
  returns when every goroutine of the wait group has seen the closed \<^verbatim>\<open>stopCh\<close> and
  left, which brings the counter to zero.
\<close>

definition Stop :: "'m Streamer \<Rightarrow> 'm Streamer" where
  "Stop s =
     (if stopOnce s then s
      else s\<lparr>stopOnce := True, stopped := True, stopCh := True, wg := 0,
             handler := handler s @ [OnEnd]\<rparr>)"


section \<open>The merge predicates shipped with the library\<close>

text \<open>
  \<^verbatim>\<open>strings.TrimSpace\<close> removes the leading and trailing white space runes of Unicode:
  here the UTF-8 encodings of the runes \<^verbatim>\<open>unicode.IsSpace\<close> accepts, the six of ASCII,
  U+0085, U+00A0, U+1680, U+2000 to U+200A, U+2028, U+2029, U+202F, U+205F and U+3000.
\<close>

definition whiteSpace :: "string list" where
  "whiteSpace =
     [[CHR 0x09], [CHR 0x0A], [CHR 0x0B], [CHR 0x0C], [CHR 0x0D], [CHR 0x20],
      [CHR 0xC2, CHR 0x85], [CHR 0xC2, CHR 0xA0], [CHR 0xE1, CHR 0x9A, CHR 0x80],
      [CHR 0xE2, CHR 0x80, CHR 0x80], [CHR 0xE2, CHR 0x80, CHR 0x81],
      [CHR 0xE2, CHR 0x80, CHR 0x82], [CHR 0xE2, CHR 0x80, CHR 0x83],
      [CHR 0xE2, CHR 0x80, CHR 0x84], [CHR 0xE2, CHR 0x80, CHR 0x85],
      [CHR 0xE2, CHR 0x80, CHR 0x86], [CHR 0xE2, CHR 0x80, CHR 0x87],
      [CHR 0xE2, CHR 0x80, CHR 0x88], [CHR 0xE2, CHR 0x80, CHR 0x89],
      [CHR 0xE2, CHR 0x80, CHR 0x8A], [CHR 0xE2, CHR 0x80, CHR 0xA8],
      [CHR 0xE2, CHR 0x80, CHR 0xA9], [CHR 0xE2, CHR 0x80, CHR 0xAF],
      [CHR 0xE2, CHR 0x81, CHR 0x9F], [CHR 0xE3, CHR 0x80, CHR 0x80]]"

function dropSpaces :: "string list \<Rightarrow> string \<Rightarrow> string" where
  "dropSpaces ws s =
     (case find (\<lambda>w. w \<noteq> [] \<and> prefix w s) ws of
        None \<Rightarrow> s
      | Some w \<Rightarrow> dropSpaces ws (drop (length w) s))"
  by pat_completeness auto
termination
  by (relation "measure (\<lambda>(ws, s). length s)") (auto simp: find_Some_iff prefix_def)

definition TrimSpace :: "string \<Rightarrow> string" where
  "TrimSpace s = rev (dropSpaces (map rev whiteSpace) (rev (dropSpaces whiteSpace s)))"

definition HasSuffix :: "string \<Rightarrow> string \<Rightarrow> bool" where
  "HasSuffix s suff = suffix suff s"

text \<open>In a regular expression of Go \<^verbatim>\<open>\s\<close> is one of tab, newline, form feed, return, space.\<close>

definition reSpace :: "char \<Rightarrow> bool" where
  "reSpace c = (c \<in> {CHR 0x09, CHR 0x0A, CHR 0x0C, CHR 0x0D, CHR 0x20})"

record JavaStackMatcher =
  ExceptionRegex :: regexp
  TabIndentationRegex :: regexp
  CausedByRegex :: regexp
  AtRegex :: regexp

text \<open>
  The four expressions, each anchored at the start of the line and matched by
  \<^verbatim>\<open>MatchString\<close>: \<^verbatim>\<open>^[^\s]+Exception:\<close>, \<^verbatim>\<open>^\t\<close>, \<^verbatim>\<open>^Caused by:\<close> and
  \<^verbatim>\<open>^\s+at \<close>. In the last one the white space comes to an end before the letter a.
\<close>

definition NewJavaStackMatcher :: JavaStackMatcher where
  "NewJavaStackMatcher =
     \<lparr>ExceptionRegex =
        (\<lambda>l. list_ex (\<lambda>k. prefix ''Exception:'' (drop k l))
               [1..<Suc (length (takeWhile (\<lambda>c. \<not> reSpace c) l))]),
      TabIndentationRegex = (\<lambda>l. prefix [CHR 0x09] l),
      CausedByRegex = (\<lambda>l. prefix ''Caused by:'' l),
      AtRegex = (\<lambda>l. takeWhile reSpace l \<noteq> [] \<and> prefix ''at '' (dropWhile reSpace l))\<rparr>"

definition JavaStackMatcher_ShouldMerge :: "JavaStackMatcher \<Rightarrow> string \<Rightarrow> string \<Rightarrow> bool" where
  "JavaStackMatcher_ShouldMerge m previous next =
     (if TrimSpace next = [] then False
      else if TabIndentationRegex m next then True
      else if AtRegex m next then True
      else if CausedByRegex m next then True
      else if HasSuffix (TrimSpace previous) [CHR 0x5C] then True
      else False)"

text \<open>
  Of \<^verbatim>\<open>JSONMatcher\<close> the two fields its method reads and writes. \<^verbatim>\<open>StartObjectRegex\<close>
  is \<^verbatim>\<open>^[^{]*{\<close>: characters other than an opening brace, then an opening brace.
\<close>

record JSONMatcher =
  BracketMode :: bool
  BracketCount :: int

definition NewJSONMatcher :: JSONMatcher where
  "NewJSONMatcher = \<lparr>BracketMode = True, BracketCount = 0\<rparr>"

definition StartObjectRegex :: regexp where
  "StartObjectRegex l = (dropWhile (\<lambda>c. c \<noteq> CHR 0x7B) l \<noteq> [])"

text \<open>The loop over the characters of \<^verbatim>\<open>previous\<close> that adjusts the count.\<close>

fun countBrackets :: "int \<Rightarrow> string \<Rightarrow> int" where
  "countBrackets n [] = n"
| "countBrackets n (c # cs) =
     countBrackets (if c = CHR 0x7B then n + 1 else if c = CHR 0x7D then n - 1 else n) cs"

definition JSONMatcher_ShouldMerge :: "JSONMatcher \<Rightarrow> string \<Rightarrow> string \<Rightarrow> bool \<times> JSONMatcher" where
  "JSONMatcher_ShouldMerge m previous next =
     (if HasSuffix (TrimSpace previous) [CHR 0x5C] then (True, m)
      else if \<not> BracketMode m then (False, m)
      else
        (let m1 = (if StartObjectRegex previous \<and> BracketCount m = 0
                   then m\<lparr>BracketCount := countBrackets 1 previous - 1\<rparr>
                   else m\<lparr>BracketCount := countBrackets (BracketCount m) previous\<rparr>)
         in if BracketCount m1 \<le> 0 then (False, m1\<lparr>BracketCount := 0\<rparr>) else (True, m1)))"

text \<open>The two matchers as \<^verbatim>\<open>MultilineMatcher\<close> objects, as \<^verbatim>\<open>New...\<close> returns them.\<close>

definition javaStackMatcher :: "JavaStackMatcher MultilineMatcher" where
  "javaStackMatcher =
     \<lparr>mstate = NewJavaStackMatcher,
      ShouldMerge = (\<lambda>m previous next. (JavaStackMatcher_ShouldMerge m previous next, m))\<rparr>"

definition jsonMatcher :: "JSONMatcher MultilineMatcher" where
  "jsonMatcher = \<lparr>mstate = NewJSONMatcher, ShouldMerge = JSONMatcher_ShouldMerge\<rparr>"

text \<open>
  The predicate as C8 words it, to be compared with \<open>JavaStackMatcher_ShouldMerge\<close>: \<open>next\<close>
  is not blank and starts with a tab, or with optional spaces then \<^verbatim>\<open>"at "\<close>, or with
  \<^verbatim>\<open>"Caused by:"\<close>, or \<open>previous\<close>, trimmed, ends with a backslash.
\<close>

definition claimedShouldMerge :: "string \<Rightarrow> string \<Rightarrow> bool" where
  "claimedShouldMerge previous next =
     (TrimSpace next \<noteq> [] \<and>
      (prefix [CHR 0x09] next \<or>
       prefix ''at '' (dropWhile (\<lambda>c. c = CHR 0x20) next) \<or>
       prefix ''Caused by:'' next \<or>
       suffix [CHR 0x5C] (TrimSpace previous)))"

text \<open>A matcher object after a sequence of calls of its \<^verbatim>\<open>ShouldMerge\<close>.\<close>

fun afterCalls :: "'m MultilineMatcher \<Rightarrow> (string \<times> string) list \<Rightarrow> 'm MultilineMatcher" where
  "afterCalls m [] = m"
| "afterCalls m ((previous, next) # calls) =
     afterCalls (snd (callShouldMerge m previous next)) calls"


section \<open>Sequences of calls and example values\<close>

text \<open>
  What can happen to a streamer, one after the other: a call of \<^verbatim>\<open>Start\<close>, a call of
  \<^verbatim>\<open>Stop\<close>, or a callback (\<^verbatim>\<open>OnLog\<close>, \<^verbatim>\<open>OnError\<close>) made by one of its workers.
\<close>

datatype call = CallStart | CallStop | WorkerLog LogMessage | WorkerError LogStreamError

fun perform :: "'m Streamer \<Rightarrow> call list \<Rightarrow> 'm Streamer" where
  "perform s [] = s"
| "perform s (CallStart # cs) = perform (snd (Start s)) cs"
| "perform s (CallStop # cs) = perform (Stop s) cs"
| "perform s (WorkerLog msg # cs) = perform (s\<lparr>handler := handler s @ [OnLog msg]\<rparr>) cs"
| "perform s (WorkerError e # cs) = perform (report s e) cs"

definition exampleFilter :: LogFilter where
  "exampleFilter =
     \<lparr>PodNameRegex = None, ContainerRegex = None, LabelSelector = None, IncludeRegex = None,
      Since = None, ContainerState = ''all'', Namespaces = [''default'']\<rparr>"

definition examplePolicy :: RetryPolicy where
  "examplePolicy =
     \<lparr>MaxRetries = 0, InitialInterval = 1000, MaxInterval = 8000, Multiplier = (\<lambda>b. 2 * b)\<rparr>"

definition examplePod :: Pod where
  "examplePod =
     \<lparr>Name = ''web-0'', PodNamespace = ''default'', Containers = [''app''], Phase = ''Running''\<rparr>"

definition exampleClientset :: clientset where
  "exampleClientset = \<lparr>ListPods = (\<lambda>namespace labelSelector. Inr [examplePod])\<rparr>"

definition exampleConfig :: "unit StreamerConfig" where
  "exampleConfig =
     \<lparr>KubeClientProvider = Some (Inr exampleClientset), Filter = Some exampleFilter,
      Handler = Some [], Formatter = None, Matcher = None, RetryPolicy = examplePolicy,
      MaxMultilines = 0\<rparr>"

text \<open>The streamer \<^verbatim>\<open>NewStreamer\<close> builds from \<open>exampleConfig\<close>.\<close>

definition exampleStreamer :: "unit Streamer" where
  "exampleStreamer =
     \<lparr>clientset = exampleClientset, filter' = exampleFilter, handler = [],
      formatter = passthroughFormatter, matcher = None, retryPolicy = examplePolicy,
      maxMultilines = 500, active = Map.empty, stopped = False, stopOnce = False,
      stopCh = False, wg = 0, goroutines = []\<rparr>"

text \<open>A matcher that merges every line, and one that merges none.\<close>

definition alwaysMerge :: "unit MultilineMatcher" where
  "alwaysMerge = \<lparr>mstate = (), ShouldMerge = (\<lambda>st previous next. (True, st))\<rparr>"

definition neverMerge :: "unit MultilineMatcher" where
  "neverMerge = \<lparr>mstate = (), ShouldMerge = (\<lambda>st previous next. (False, st))\<rparr>"

text \<open>A reader that returns one line, with its newline, at each \<^verbatim>\<open>Read\<close>.\<close>

definition lineReader :: "string list \<Rightarrow> reader" where
  "lineReader ls = map (\<lambda>l. (l @ [newline], None)) ls"

definition messages :: "event list \<Rightarrow> string list" where
  "messages evs = concat (map (\<lambda>e. case e of OnLog msg \<Rightarrow> [Message msg] | _ \<Rightarrow> []) evs)"


section \<open>The processing loops as folds over the scanned lines\<close>

text \<open>
  For the proofs: the scanner when \<^verbatim>\<open>Scan\<close> has returned false, the loop bodies folded over
  a list of lines, how many lines a cancellation lets through, and the records that groups
  of lines give rise to.
\<close>

declare singleLineLoop.simps [simp del] multilineLoop.simps [simp del] scanAll.simps [simp del]

function scanEnd :: "scanner \<Rightarrow> scanner" where
  "scanEnd s = (case Scan s of (False, s') \<Rightarrow> s' | (True, s') \<Rightarrow> scanEnd s')"
  by pat_completeness auto
termination
  by (relation "measure scanMeasure") (auto dest: Scan_measure)

declare scanEnd.simps [simp del]

fun multilineSteps ::
  "'m Streamer \<Rightarrow> 'm MultilineMatcher \<Rightarrow> string \<Rightarrow> string \<Rightarrow> string \<Rightarrow> reassembly \<Rightarrow>
   string list \<Rightarrow> 'm Streamer \<times> 'm MultilineMatcher \<times> reassembly" where
  "multilineSteps s m podName containerName namespace st [] = (s, m, st)"
| "multilineSteps s m podName containerName namespace st (line # lines) =
     (case multilineStep s m podName containerName namespace st line line of
        (s1, m1, st1) \<Rightarrow> multilineSteps s1 m1 podName containerName namespace st1 lines)"

fun singleLineSteps ::
  "'m Streamer \<Rightarrow> string \<Rightarrow> string \<Rightarrow> string \<Rightarrow> string list \<Rightarrow> 'm Streamer" where
  "singleLineSteps s podName containerName namespace [] = s"
| "singleLineSteps s podName containerName namespace (line # lines) =
     singleLineSteps (singleLineStep s podName containerName namespace line line)
       podName containerName namespace lines"

definition seen :: "bool list \<Rightarrow> nat" where
  "seen ctx = length (takeWhile Not ctx)"

definition cancelled :: "bool list \<Rightarrow> nat \<Rightarrow> bool" where
  "cancelled ctx n = (seen ctx < length ctx \<and> seen ctx < n)"

definition multilineResult ::
  "'m Streamer \<Rightarrow> 'm MultilineMatcher \<Rightarrow> bool list \<Rightarrow> string list \<Rightarrow> scanner \<Rightarrow>
   string \<Rightarrow> string \<Rightarrow> string \<Rightarrow> reassembly \<Rightarrow> LogStreamError option \<times> 'm Streamer \<times> bool list" where
  "multilineResult s m ctx lines final podName containerName namespace st =
     (if cancelled ctx (length lines)
      then (case multilineSteps s m podName containerName namespace st (take (seen ctx) lines) of
              (s1, m1, st1) \<Rightarrow> (None, s1\<lparr>matcher := Some m1\<rparr>, drop (seen ctx) ctx))
      else (case multilineSteps s m podName containerName namespace st lines of
              (s1, m1, st1) \<Rightarrow>
                (case flush s1 podName containerName namespace st1 of
                   (s2, st2) \<Rightarrow>
                     (case afterScan s2 final podName of
                        (e, s3) \<Rightarrow> (e, s3\<lparr>matcher := Some m1\<rparr>, drop (length lines) ctx)))))"

definition recordOf :: "'m Streamer \<Rightarrow> string \<Rightarrow> string \<Rightarrow> string \<Rightarrow> string list \<Rightarrow> LogMessage" where
  "recordOf s podName containerName namespace g =
     \<lparr>Namespace = namespace, PodName = podName, ContainerName = containerName,
      Message = formatter s \<lparr>Namespace = namespace, PodName = podName,
                              ContainerName = containerName, Message = joinLines g,
                              Raw = joinLines g\<rparr>,
      Raw = joinLines g\<rparr>"

definition records ::
  "'m Streamer \<Rightarrow> string \<Rightarrow> string \<Rightarrow> string \<Rightarrow> string list list \<Rightarrow> event list" where
  "records s podName containerName namespace gs =
     map (\<lambda>g. OnLog (recordOf s podName containerName namespace g))
       (filter (\<lambda>g. includeMatches s (joinLines g)) gs)"

definition bound :: "'m Streamer \<Rightarrow> int" where
  "bound s = max (maxMultilines s) 2"

definition grouped ::
  "'m Streamer \<Rightarrow> string \<Rightarrow> string \<Rightarrow> string \<Rightarrow> reassembly \<Rightarrow> string list \<Rightarrow>
   'm Streamer \<Rightarrow> reassembly \<Rightarrow> string list list \<Rightarrow> bool" where
  "grouped s podName containerName namespace st lines s' st' gs =
     (s' = s\<lparr>handler := handler s @ records s podName containerName namespace gs\<rparr> \<and>
      concat gs @ buffer st' = buffer st @ lines \<and>
      rawBuffer st' = buffer st' \<and>
      [] \<notin> set gs \<and>
      (if int (length (buffer st)) < bound s
       then list_all (\<lambda>g. int (length g) \<le> bound s) gs \<and> int (length (buffer st')) < bound s
       else True))"

definition singleLineResult ::
  "'m Streamer \<Rightarrow> bool list \<Rightarrow> string list \<Rightarrow> scanner \<Rightarrow> string \<Rightarrow> string \<Rightarrow> string \<Rightarrow>
   LogStreamError option \<times> 'm Streamer \<times> bool list" where
  "singleLineResult s ctx lines final podName containerName namespace =
     (if cancelled ctx (length lines)
      then (None, singleLineSteps s podName containerName namespace (take (seen ctx) lines),
            drop (seen ctx) ctx)
      else (case afterScan (singleLineSteps s podName containerName namespace lines) final podName of
              (e, s1) \<Rightarrow> (e, s1, drop (length lines) ctx)))"

section \<open>Start and stop\<close>

lemma NewStreamer_example: "NewStreamer exampleConfig = Inr exampleStreamer"
  by (simp add: NewStreamer_def exampleConfig_def exampleStreamer_def DefaultMaxMultilines_def)

lemma NewStreamer_fresh:
  "NewStreamer config = Inr s \<Longrightarrow>
     \<not> stopOnce s \<and> \<not> stopped s \<and> Handler config = Some (handler s) \<and> wg s = 0 \<and> goroutines s = []"
  by (auto simp: NewStreamer_def split: option.splits sum.splits)

text \<open>Starting touches neither the handler nor the two flags of stopping.\<close>

lemma launchFollowers_frame:
  "handler (launchFollowers s pod cs) = handler s \<and>
   stopOnce (launchFollowers s pod cs) = stopOnce s \<and>
   stopped (launchFollowers s pod cs) = stopped s"
  by (induction s pod cs rule: launchFollowers.induct) simp_all

lemma streamExistingPods_frame:
  "handler (streamExistingPods s pods) = handler s \<and>
   stopOnce (streamExistingPods s pods) = stopOnce s \<and>
   stopped (streamExistingPods s pods) = stopped s"
  by (induction s pods rule: streamExistingPods.induct)
     (simp_all add: startPodLogStreamer_def launchFollowers_frame)

lemma watchNamespaces_frame:
  "handler (snd (watchNamespaces s nss)) = handler s \<and>
   stopOnce (snd (watchNamespaces s nss)) = stopOnce s \<and>
   stopped (snd (watchNamespaces s nss)) = stopped s"
  by (induction s nss rule: watchNamespaces.induct)
     (simp_all add: Let_def streamExistingPods_frame split: sum.splits)

lemma Start_frame:
  "handler (snd (Start s)) = handler s \<and> stopOnce (snd (Start s)) = stopOnce s \<and>
   stopped (snd (Start s)) = stopped s"
  by (simp add: Start_def startPodWatcher_def watchNamespaces_frame)

lemma perform_append: "perform s (cs @ ds) = perform (perform s cs) ds"
  by (induction s cs rule: perform.induct) simp_all

lemma perform_OnEnd_count:
  "count_list (handler (perform s cs)) OnEnd =
     count_list (handler s) OnEnd + (if \<not> stopOnce s \<and> CallStop \<in> set cs then 1 else 0)"
  by (induction s cs rule: perform.induct) (simp_all add: Start_frame Stop_def report_def)

lemma perform_no_Stop:
  "CallStop \<notin> set cs \<Longrightarrow> stopOnce (perform s cs) = stopOnce s"
  by (induction s cs rule: perform.induct) (simp_all add: Start_frame report_def)

lemma perform_stopped:
  "stopped s \<or> (\<not> stopOnce s \<and> CallStop \<in> set cs) \<Longrightarrow> stopped (perform s cs)"
  by (induction s cs rule: perform.induct) (auto simp: Start_frame Stop_def report_def)

text \<open>
  C2. On a streamer built by \<^verbatim>\<open>NewStreamer\<close>, whose handler has not seen \<^verbatim>\<open>OnEnd\<close>, any
  sequence of calls of \<^verbatim>\<open>Start\<close> and \<^verbatim>\<open>Stop\<close> and of callbacks of workers that holds
  at least one \<^verbatim>\<open>Stop\<close> leaves the handler with exactly one \<^verbatim>\<open>OnEnd\<close>, and it is the
  first \<^verbatim>\<open>Stop\<close> that appends it, whether or not a \<^verbatim>\<open>Start\<close> came before.
\<close>

theorem Stop_OnEnd_exactly_once:
  assumes "NewStreamer config = Inr s" and "OnEnd \<notin> set (handler s)" and "CallStop \<in> set cs"
  shows "count_list (handler (perform s cs)) OnEnd = 1 \<and>
         (\<forall>before after. cs = before @ CallStop # after \<and> CallStop \<notin> set before \<longrightarrow>
            handler (perform s (before @ [CallStop])) = handler (perform s before) @ [OnEnd])"
proof -
  from assms(1) have fresh: "\<not> stopOnce s" by (simp add: NewStreamer_fresh)
  have "count_list (handler s) OnEnd = 0" using assms(2) by (simp add: count_list_0_iff)
  with fresh assms(3) have once: "count_list (handler (perform s cs)) OnEnd = 1"
    by (simp add: perform_OnEnd_count)
  have first: "handler (perform s (before @ [CallStop])) = handler (perform s before) @ [OnEnd]"
    if "CallStop \<notin> set before" for before
    using that fresh by (simp add: perform_append perform_no_Stop Stop_def)
  from once first show ?thesis by blast
qed

theorem Stop_OnEnd_exactly_once_witness:
  "NewStreamer exampleConfig = Inr exampleStreamer \<and> OnEnd \<notin> set (handler exampleStreamer) \<and>
   CallStop \<in> set [CallStop, CallStart, CallStop] \<and>
   count_list (handler (perform exampleStreamer [CallStop, CallStart, CallStop])) OnEnd = 1 \<and>
   handler (perform exampleStreamer ([] @ [CallStop])) = handler (perform exampleStreamer []) @ [OnEnd]"
proof -
  have a: "NewStreamer exampleConfig = Inr exampleStreamer" by (rule NewStreamer_example)
  have b: "OnEnd \<notin> set (handler exampleStreamer)" by (simp add: exampleStreamer_def)
  have c: "CallStop \<in> set [CallStop, CallStart, CallStop]" by simp
  have d: "[CallStop, CallStart, CallStop] = [] @ CallStop # [CallStart, CallStop] \<and>
           CallStop \<notin> set []" by simp
  from Stop_OnEnd_exactly_once [OF a b c] a b c d show ?thesis by blast
qed

text \<open>
  C6, as the claim states it, fails: \<^verbatim>\<open>Start\<close> looks at \<^verbatim>\<open>s.stopped\<close> only, so a second
  \<^verbatim>\<open>Start\<close> on a streamer that was started and not stopped succeeds as the first did, and
  launches the follower and the watcher a second time.
\<close>

theorem second_Start_succeeds:
  "fst (Start exampleStreamer) = None \<and>
   fst (Start (snd (Start exampleStreamer))) = None \<and>
   goroutines (snd (Start (snd (Start exampleStreamer)))) =
     [Follower ''web-0'' ''app'' ''default'', Watcher ''default'',
      Follower ''web-0'' ''app'' ''default'', Watcher ''default'']"
  by code_simp

text \<open>
  C6, amended. On a streamer built by \<^verbatim>\<open>NewStreamer\<close>, after any sequence of calls that
  holds a \<^verbatim>\<open>Stop\<close>, \<^verbatim>\<open>Start\<close> returns the permanent error "streamer stopped" and leaves
  the streamer as it was: nothing is listed and nothing is launched.
\<close>

theorem Start_after_Stop:
  assumes "NewStreamer config = Inr s" and "CallStop \<in> set cs"
  shows "Start (perform s cs) =
           (Some (NewLogStreamError (GoError ''streamer is stopped'') True ''streamer stopped''),
            perform s cs)"
proof -
  from assms(1) have "\<not> stopOnce s" by (simp add: NewStreamer_fresh)
  with assms(2) have "stopped (perform s cs)" by (simp add: perform_stopped)
  then show ?thesis by (simp add: Start_def)
qed

theorem Start_after_Stop_witness:
  "NewStreamer exampleConfig = Inr exampleStreamer \<and> CallStop \<in> set [CallStart, CallStop] \<and>
   fst (Start (perform exampleStreamer [CallStart, CallStop])) =
     Some \<lparr>Err' = GoError ''streamer is stopped'', Permanent = True, Reason = ''streamer stopped''\<rparr> \<and>
   goroutines (snd (Start (perform exampleStreamer [CallStart, CallStop]))) =
     goroutines (perform exampleStreamer [CallStart, CallStop])"
proof -
  have a: "NewStreamer exampleConfig = Inr exampleStreamer" by (rule NewStreamer_example)
  have c: "CallStop \<in> set [CallStart, CallStop]" by simp
  from Start_after_Stop [OF a c] a c show ?thesis by (simp add: NewLogStreamError_def)
qed

section \<open>The line scanner\<close>

text \<open>
  C1 fails on the code. When one \<^verbatim>\<open>Read\<close> returns the six bytes of the source
  \<^verbatim>\<open>"a\nb\nc\n"\<close>, \<^verbatim>\<open>Scan\<close> returns the line before the first newline and leaves the rest
  of the chunk behind: the scanner yields the one line \<^verbatim>\<open>"a"\<close>, and with no matcher and no
  include expression the handler receives the one record \<^verbatim>\<open>"a"\<close>.
\<close>

theorem Scan_drops_rest_of_chunk:
  "scanAll (NewScanner [(''a\<newline>b\<newline>c\<newline>'', None)]) = [''a''] \<and>
   handler (fst (snd (processLogStream exampleStreamer []
                        [(''a\<newline>b\<newline>c\<newline>'', None)] ''web-0'' ''app'' ''default''))) =
     [OnLog \<lparr>Namespace = ''default'', PodName = ''web-0'', ContainerName = ''app'',
             Message = ''a'', Raw = ''a''\<rparr>]"
  by code_simp


section \<open>The reassembly of lines\<close>

lemma seen_simps [simp]:
  "seen [] = 0" "seen (True # bs) = 0" "seen (False # bs) = Suc (seen bs)"
  by (simp_all add: seen_def)

lemma cancelled_simps [simp]:
  "cancelled [] n = False" "cancelled ctx 0 = False" "cancelled (True # bs) (Suc n) = True"
  "cancelled (False # bs) (Suc n) = cancelled bs n"
  by (auto simp: cancelled_def)

lemma ctxDone_Nil [simp]: "ctxDone [] = (False, [])"
  by (simp add: ctxDone_def)

lemma ctxDone_Cons [simp]: "ctxDone (b # bs) = (b, if b then b # bs else bs)"
  by (simp add: ctxDone_def)

lemma scanAll_False: "Scan sc = (False, sc') \<Longrightarrow> scanAll sc = []"
  by (simp add: scanAll.simps [of sc])

lemma scanAll_True: "Scan sc = (True, sc') \<Longrightarrow> scanAll sc = Text sc' # scanAll sc'"
  by (simp add: scanAll.simps [of sc])

lemma scanEnd_False: "Scan sc = (False, sc') \<Longrightarrow> scanEnd sc = sc'"
  by (simp add: scanEnd.simps [of sc])

lemma scanEnd_True: "Scan sc = (True, sc') \<Longrightarrow> scanEnd sc = scanEnd sc'"
  by (simp add: scanEnd.simps [of sc])

lemma multilineLoop_False:
  "Scan sc = (False, sc') \<Longrightarrow>
   multilineLoop s m ctx sc podName containerName namespace st =
     (case flush s podName containerName namespace st of
        (s1, st1) \<Rightarrow>
          (case afterScan s1 sc' podName of (e, s2) \<Rightarrow> (e, s2\<lparr>matcher := Some m\<rparr>, ctx)))"
  by (simp add: multilineLoop.simps [of s m ctx sc])

lemma multilineLoop_cancel:
  "Scan sc = (True, sc') \<Longrightarrow>
   multilineLoop s m (True # bs) sc podName containerName namespace st =
     (None, s\<lparr>matcher := Some m\<rparr>, True # bs)"
  by (simp add: multilineLoop.simps [of s m "True # bs" sc])

lemma multilineLoop_step:
  "Scan sc = (True, sc') \<Longrightarrow> ctxDone ctx = (False, ctx') \<Longrightarrow>
   multilineStep s m podName containerName namespace st (token sc') (token sc') = (s1, m1, st1) \<Longrightarrow>
   multilineLoop s m ctx sc podName containerName namespace st =
     multilineLoop s1 m1 ctx' sc' podName containerName namespace st1"
  by (simp add: multilineLoop.simps [of s m ctx sc] Text_def Bytes_def)

lemma multilineResult_Nil:
  "multilineResult s m ctx [] final podName containerName namespace st =
     (case flush s podName containerName namespace st of
        (s1, st1) \<Rightarrow>
          (case afterScan s1 final podName of (e, s2) \<Rightarrow> (e, s2\<lparr>matcher := Some m\<rparr>, ctx)))"
  by (simp add: multilineResult_def)

lemma multilineResult_cancel:
  "multilineResult s m (True # bs) (l # ls) final podName containerName namespace st =
     (None, s\<lparr>matcher := Some m\<rparr>, True # bs)"
  by (simp add: multilineResult_def)

lemma multilineResult_step:
  "ctxDone ctx = (False, ctx') \<Longrightarrow>
   multilineStep s m podName containerName namespace st l l = (s1, m1, st1) \<Longrightarrow>
   multilineResult s m ctx (l # ls) final podName containerName namespace st =
     multilineResult s1 m1 ctx' ls final podName containerName namespace st1"
  by (cases ctx) (auto simp: multilineResult_def ctxDone_def split: if_splits)

lemma multilineLoop_eq:
  "multilineLoop s m ctx sc podName containerName namespace st =
     multilineResult s m ctx (scanAll sc) (scanEnd sc) podName containerName namespace st"
proof (induction sc arbitrary: s m ctx st rule: scanAll.induct)
  case (1 sc)
  obtain ok sc' where sc: "Scan sc = (ok, sc')" by (cases "Scan sc")
  show ?case
  proof (cases ok)
    case False
    with sc have no: "Scan sc = (False, sc')" by simp
    show ?thesis
      by (simp only: multilineLoop_False [OF no] scanAll_False [OF no] scanEnd_False [OF no]
            multilineResult_Nil)
  next
    case True
    with sc have ok: "Scan sc = (True, sc')" by simp
    note IH = "1.IH" [OF ok [symmetric] refl]
    show ?thesis
    proof (cases "ctxDone ctx")
      case (Pair b ctx')
      show ?thesis
      proof (cases b)
        case True
        with Pair obtain bs where ctx: "ctx = True # bs"
          by (cases ctx) (auto simp: ctxDone_def split: if_splits)
        show ?thesis
          by (simp only: ctx multilineLoop_cancel [OF ok] scanAll_True [OF ok] Text_def
                multilineResult_cancel)
      next
        case False
        with Pair have nd: "ctxDone ctx = (False, ctx')" by simp
        obtain s1 m1 st1 where step:
          "multilineStep s m podName containerName namespace st (token sc') (token sc') = (s1, m1, st1)"
          by (cases "multilineStep s m podName containerName namespace st (token sc') (token sc')")
        show ?thesis
          by (simp only: multilineLoop_step [OF ok nd step] IH scanAll_True [OF ok]
                scanEnd_True [OF ok] Text_def multilineResult_step [OF nd step])
      qed
    qed
  qed
qed

lemma records_handler [simp]:
  "records (s\<lparr>handler := h\<rparr>) podName containerName namespace gs =
   records s podName containerName namespace gs"
  by (simp add: records_def recordOf_def includeMatches_def)

lemma records_append:
  "records s podName containerName namespace (gs @ hs) =
   records s podName containerName namespace gs @ records s podName containerName namespace hs"
  by (simp add: records_def)

lemma records_Cons:
  "records s podName containerName namespace [g] @ records s podName containerName namespace gs =
   records s podName containerName namespace (g # gs)"
  by (simp add: records_def)

lemma records_Nil [simp]: "records s podName containerName namespace [] = []"
  by (simp add: records_def)

lemma flush_groups:
  assumes "rawBuffer st = buffer st"
  shows "flush s podName containerName namespace st =
           (s\<lparr>handler := handler s @
                 records s podName containerName namespace (if buffer st = [] then [] else [buffer st])\<rparr>,
            st\<lparr>buffer := [], rawBuffer := []\<rparr>)"
  using assms by (simp add: flush_def records_def recordOf_def deliver_def Let_def)

lemma bound_handler [simp]: "bound (s\<lparr>handler := h\<rparr>) = bound s"
  by (simp add: bound_def)

lemma step_grouped:
  assumes raw: "rawBuffer st = buffer st"
    and step: "multilineStep s m podName containerName namespace st l l = (s', m', st')"
  shows "\<exists>gs. grouped s podName containerName namespace st [l] s' st' gs"
proof (cases "buffer st = []")
  case True
  with raw step have "grouped s podName containerName namespace st [l] s' st' []"
    by (auto simp: multilineStep_def grouped_def bound_def)
  then show ?thesis ..
next
  case False
  obtain b m1 where call: "callShouldMerge m (lastLine st) l = (b, m1)"
    by (cases "callShouldMerge m (lastLine st) l")
  show ?thesis
  proof (cases b)
    case True
    with call have merge: "callShouldMerge m (lastLine st) l = (True, m1)" by simp
    let ?st1 = "st\<lparr>buffer := buffer st @ [l], rawBuffer := rawBuffer st @ [l], lastLine := l\<rparr>"
    have raw1: "rawBuffer ?st1 = buffer ?st1" using raw by simp
    show ?thesis
    proof (cases "int (length (buffer st)) + 1 \<ge> maxMultilines s")
      case True
      with False merge step raw True
      have "grouped s podName containerName namespace st [l] s' st' [buffer st @ [l]]"
        by (auto simp: multilineStep_def grouped_def bound_def flush_groups Let_def)
      then show ?thesis ..
    next
      case False
      with \<open>buffer st \<noteq> []\<close> merge step raw
      have "grouped s podName containerName namespace st [l] s' st' []"
        by (auto simp: multilineStep_def grouped_def bound_def Let_def)
      then show ?thesis ..
    qed
  next
    case False
    with call have "callShouldMerge m (lastLine st) l = (False, m1)" by simp
    with \<open>buffer st \<noteq> []\<close> step raw
    have "grouped s podName containerName namespace st [l] s' st' [buffer st]"
      by (auto simp: multilineStep_def grouped_def bound_def flush_groups)
    then show ?thesis ..
  qed
qed

lemma grouped_refl:
  "rawBuffer st = buffer st \<Longrightarrow> grouped s podName containerName namespace st [] s st []"
  by (simp add: grouped_def)

lemma grouped_trans:
  assumes "grouped s podName containerName namespace st ls1 s1 st1 gs1"
    and "grouped s1 podName containerName namespace st1 ls2 s2 st2 gs2"
  shows "grouped s podName containerName namespace st (ls1 @ ls2) s2 st2 (gs1 @ gs2)"
proof -
  from assms(1) have s1: "s1 = s\<lparr>handler := handler s @ records s podName containerName namespace gs1\<rparr>"
    and c1: "concat gs1 @ buffer st1 = buffer st @ ls1"
    by (simp_all add: grouped_def)
  from assms(2) have c2: "concat gs2 @ buffer st2 = buffer st1 @ ls2"
    by (simp add: grouped_def)
  have "concat (gs1 @ gs2) @ buffer st2 = concat gs1 @ buffer st1 @ ls2"
    using c2 by simp
  also have "\<dots> = buffer st @ ls1 @ ls2" using c1 by (metis append.assoc)
  finally have cc: "concat (gs1 @ gs2) @ buffer st2 = buffer st @ ls1 @ ls2" .
  show ?thesis
    using assms cc unfolding grouped_def
    by (auto simp: s1 records_append split: if_splits)
qed

lemma steps_grouped:
  "rawBuffer st = buffer st \<Longrightarrow>
   multilineSteps s m podName containerName namespace st lines = (s', m', st') \<Longrightarrow>
   \<exists>gs. grouped s podName containerName namespace st lines s' st' gs"
proof (induction lines arbitrary: s m st)
  case Nil
  then show ?case using grouped_refl by fastforce
next
  case (Cons l lines)
  obtain s1 m1 st1 where step:
    "multilineStep s m podName containerName namespace st l l = (s1, m1, st1)"
    by (cases "multilineStep s m podName containerName namespace st l l")
  from step_grouped [OF Cons.prems(1) step] obtain gs1
    where g1: "grouped s podName containerName namespace st [l] s1 st1 gs1" ..
  then have raw1: "rawBuffer st1 = buffer st1" by (simp add: grouped_def)
  from Cons.prems(2) step
  have "multilineSteps s1 m1 podName containerName namespace st1 lines = (s', m', st')" by simp
  from Cons.IH [OF raw1 this] obtain gs2
    where g2: "grouped s1 podName containerName namespace st1 lines s' st' gs2" ..
  from grouped_trans [OF g1 g2] show ?case by auto
qed

lemma afterScan_handler: "handler (snd (afterScan s sc podName)) = handler s"
  by (simp add: afterScan_def split: option.splits)

lemma not_cancelled: "True \<notin> set ctx \<Longrightarrow> \<not> cancelled ctx k"
proof -
  assume "True \<notin> set ctx"
  then have tw: "takeWhile Not ctx = ctx" by (induction ctx) auto
  show ?thesis by (simp add: cancelled_def seen_def tw)
qed

lemma multiline_groups:
  "\<exists>gs rest.
     scanAll (NewScanner stream) = concat gs @ rest \<and> [] \<notin> set gs \<and>
     list_all (\<lambda>g. int (length g) \<le> bound s) gs \<and>
     handler (fst (snd (processMultilineLogStream s m ctx stream podName containerName namespace))) =
       handler s @ records s podName containerName namespace gs \<and>
     (True \<notin> set ctx \<longrightarrow> rest = [])"
proof -
  let ?lines = "scanAll (NewScanner stream)"
  let ?st0 = "\<lparr>buffer = [], rawBuffer = [], lastLine = []\<rparr>"
  let ?res = "processMultilineLogStream s m ctx stream podName containerName namespace"
  have raw0: "rawBuffer ?st0 = buffer ?st0" by simp
  have small: "int (length (buffer ?st0)) < bound s" by (simp add: bound_def)
  show ?thesis
  proof (cases "cancelled ctx (length ?lines)")
    case True
    obtain s1 m1 st1 where steps:
      "multilineSteps s m podName containerName namespace ?st0 (take (seen ctx) ?lines) = (s1, m1, st1)"
      by (cases "multilineSteps s m podName containerName namespace ?st0 (take (seen ctx) ?lines)")
    from steps_grouped [OF raw0 steps] obtain gs
      where g: "grouped s podName containerName namespace ?st0 (take (seen ctx) ?lines) s1 st1 gs" ..
    have res: "handler (fst (snd ?res)) = handler s1"
      using True steps
      by (simp add: processMultilineLogStream_def multilineLoop_eq multilineResult_def)
    from g have cat: "concat gs @ buffer st1 = take (seen ctx) ?lines"
      and ne: "[] \<notin> set gs"
      and h: "handler s1 = handler s @ records s podName containerName namespace gs"
      and b: "list_all (\<lambda>g. int (length g) \<le> bound s) gs"
      using small by (simp_all add: grouped_def)
    have "?lines = concat gs @ (buffer st1 @ drop (seen ctx) ?lines)"
      using cat by (metis append.assoc append_take_drop_id)
    moreover have "True \<in> set ctx"
      using True not_cancelled by blast
    ultimately show ?thesis using ne h b res by metis
  next
    case False
    obtain s1 m1 st1 where steps:
      "multilineSteps s m podName containerName namespace ?st0 ?lines = (s1, m1, st1)"
      by (cases "multilineSteps s m podName containerName namespace ?st0 ?lines")
    from steps_grouped [OF raw0 steps] obtain gs
      where g: "grouped s podName containerName namespace ?st0 ?lines s1 st1 gs" ..
    from g have cat: "concat gs @ buffer st1 = ?lines"
      and raw1: "rawBuffer st1 = buffer st1"
      and ne: "[] \<notin> set gs"
      and s1: "s1 = s\<lparr>handler := handler s @ records s podName containerName namespace gs\<rparr>"
      and b: "list_all (\<lambda>g. int (length g) \<le> bound s) gs"
      and b1: "int (length (buffer st1)) < bound s"
      using small by (simp_all add: grouped_def)
    let ?last = "if buffer st1 = [] then [] else [buffer st1]"
    have res: "handler (fst (snd ?res)) =
                 handler s1 @ records s1 podName containerName namespace ?last"
      using False steps
      by (simp add: processMultilineLogStream_def multilineLoop_eq multilineResult_def
            flush_groups [OF raw1] afterScan_handler split: prod.splits)
        (metis afterScan_handler snd_conv Streamer.select_convs(3) Streamer.surjective
           Streamer.update_convs(3))
    have "handler (fst (snd ?res)) =
            handler s @ records s podName containerName namespace (gs @ ?last)"
      unfolding res by (simp add: s1 records_append)
    moreover have "?lines = concat (gs @ ?last) @ []" using cat by auto
    moreover have "[] \<notin> set (gs @ ?last)" using ne by auto
    moreover have "list_all (\<lambda>g. int (length g) \<le> bound s) (gs @ ?last)"
      using b b1 by auto
    ultimately show ?thesis by blast
  qed
qed

lemma singleLineLoop_False:
  "Scan sc = (False, sc') \<Longrightarrow>
   singleLineLoop s ctx sc podName containerName namespace =
     (case afterScan s sc' podName of (e, s') \<Rightarrow> (e, s', ctx))"
  by (simp add: singleLineLoop.simps [of s ctx sc])

lemma singleLineLoop_cancel:
  "Scan sc = (True, sc') \<Longrightarrow>
   singleLineLoop s (True # bs) sc podName containerName namespace = (None, s, True # bs)"
  by (simp add: singleLineLoop.simps [of s "True # bs" sc])

lemma singleLineLoop_step:
  "Scan sc = (True, sc') \<Longrightarrow> ctxDone ctx = (False, ctx') \<Longrightarrow>
   singleLineLoop s ctx sc podName containerName namespace =
     singleLineLoop (singleLineStep s podName containerName namespace (token sc') (token sc'))
       ctx' sc' podName containerName namespace"
  by (simp add: singleLineLoop.simps [of s ctx sc] Text_def Bytes_def)

lemma singleLineResult_Nil:
  "singleLineResult s ctx [] final podName containerName namespace =
     (case afterScan s final podName of (e, s') \<Rightarrow> (e, s', ctx))"
  by (simp add: singleLineResult_def)

lemma singleLineResult_cancel:
  "singleLineResult s (True # bs) (l # ls) final podName containerName namespace =
     (None, s, True # bs)"
  by (simp add: singleLineResult_def)

lemma singleLineResult_step:
  "ctxDone ctx = (False, ctx') \<Longrightarrow>
   singleLineResult s ctx (l # ls) final podName containerName namespace =
     singleLineResult (singleLineStep s podName containerName namespace l l) ctx' ls final
       podName containerName namespace"
  by (cases ctx) (auto simp: singleLineResult_def ctxDone_def split: if_splits)

lemma singleLineLoop_eq:
  "singleLineLoop s ctx sc podName containerName namespace =
     singleLineResult s ctx (scanAll sc) (scanEnd sc) podName containerName namespace"
proof (induction sc arbitrary: s ctx rule: scanAll.induct)
  case (1 sc)
  obtain ok sc' where sc: "Scan sc = (ok, sc')" by (cases "Scan sc")
  show ?case
  proof (cases ok)
    case False
    with sc have no: "Scan sc = (False, sc')" by simp
    show ?thesis
      by (simp only: singleLineLoop_False [OF no] scanAll_False [OF no] scanEnd_False [OF no]
            singleLineResult_Nil)
  next
    case True
    with sc have ok: "Scan sc = (True, sc')" by simp
    note IH = "1.IH" [OF ok [symmetric] refl]
    show ?thesis
    proof (cases "ctxDone ctx")
      case (Pair b ctx')
      show ?thesis
      proof (cases b)
        case True
        with Pair obtain bs where ctx: "ctx = True # bs"
          by (cases ctx) (auto simp: ctxDone_def split: if_splits)
        show ?thesis
          by (simp only: ctx singleLineLoop_cancel [OF ok] scanAll_True [OF ok] Text_def
                singleLineResult_cancel)
      next
        case False
        with Pair have nd: "ctxDone ctx = (False, ctx')" by simp
        show ?thesis
          by (simp only: singleLineLoop_step [OF ok nd] IH scanAll_True [OF ok]
                scanEnd_True [OF ok] Text_def singleLineResult_step [OF nd])
      qed
    qed
  qed
qed

lemma singleLineSteps_records:
  "singleLineSteps s podName containerName namespace lines =
     s\<lparr>handler := handler s @
          records s podName containerName namespace (map (\<lambda>l. [l]) lines)\<rparr>"
proof (induction lines arbitrary: s)
  case Nil
  then show ?case by simp
next
  case (Cons l lines)
  have step: "singleLineStep s podName containerName namespace l l =
                s\<lparr>handler := handler s @ records s podName containerName namespace [[l]]\<rparr>"
    by (simp add: singleLineStep_def records_def recordOf_def deliver_def)
  show ?case
    by (simp add: Cons.IH step records_Cons)
qed

lemma callShouldMerge_never:
  assumes "\<forall>st previous next. \<not> fst (ShouldMerge m st previous next)"
  shows "\<exists>st. callShouldMerge m previous next = (False, m\<lparr>mstate := st\<rparr>)"
  using assms by (auto simp: callShouldMerge_def split: prod.splits) (metis fst_conv)

lemma step_never:
  assumes nm: "\<forall>st previous next. \<not> fst (ShouldMerge m st previous next)"
    and raw: "rawBuffer st = buffer st"
    and step: "multilineStep s m podName containerName namespace st l l = (s', m', st')"
  shows "s' = s\<lparr>handler := handler s @ records s podName containerName namespace
                                         (if buffer st = [] then [] else [buffer st])\<rparr> \<and>
         buffer st' = [l] \<and> rawBuffer st' = [l] \<and>
         (\<forall>st previous next. \<not> fst (ShouldMerge m' st previous next))"
proof (cases "buffer st = []")
  case True
  with raw step nm show ?thesis by (auto simp: multilineStep_def)
next
  case False
  from callShouldMerge_never [OF nm] obtain ms
    where "callShouldMerge m (lastLine st) l = (False, m\<lparr>mstate := ms\<rparr>)" by blast
  with False raw step nm show ?thesis
    by (auto simp: multilineStep_def flush_groups)
qed

lemma steps_never:
  assumes "\<forall>st previous next. \<not> fst (ShouldMerge m st previous next)"
    and "rawBuffer st = buffer st" and "length (buffer st) \<le> 1"
    and "multilineSteps s m podName containerName namespace st lines = (s', m', st')"
  shows "s' = s\<lparr>handler := handler s @ records s podName containerName namespace
                                         (map (\<lambda>l. [l]) (butlast (buffer st @ lines)))\<rparr> \<and>
         rawBuffer st' = buffer st' \<and>
         buffer st' = (if buffer st @ lines = [] then [] else [last (buffer st @ lines)])"
  using assms
proof (induction lines arbitrary: s m st)
  case Nil
  then show ?case by (cases "buffer st") auto
next
  case (Cons l lines)
  obtain s1 m1 st1 where step:
    "multilineStep s m podName containerName namespace st l l = (s1, m1, st1)"
    by (cases "multilineStep s m podName containerName namespace st l l")
  note one = step_never [OF Cons.prems(1) Cons.prems(2) step]
  from Cons.prems(4) step
  have rest: "multilineSteps s1 m1 podName containerName namespace st1 lines = (s', m', st')"
    by simp
  have "rawBuffer st1 = buffer st1" "length (buffer st1) \<le> 1" using one by simp_all
  note IH = Cons.IH [OF conjunct2 [OF conjunct2 [OF conjunct2 [OF one]]] this rest]
  have b: "buffer st = [] \<or> (\<exists>x. buffer st = [x])"
    using Cons.prems(3) by (cases "buffer st") auto
  from b show ?case
  proof
    assume "buffer st = []"
    with IH one show ?thesis by simp
  next
    assume "\<exists>x. buffer st = [x]"
    then obtain x where "buffer st = [x]" ..
    with IH one show ?thesis by (simp add: records_Cons)
  qed
qed



lemma records_matcher [simp]:
  "records (s\<lparr>matcher := x\<rparr>) podName containerName namespace gs =
   records s podName containerName namespace gs"
  by (simp add: records_def recordOf_def includeMatches_def)

lemma afterScan_error:
  "fst (afterScan s sc podName) = fst (afterScan s' sc podName)"
  by (simp add: afterScan_def split: option.splits)

text \<open>
  C10. Whatever the stream, the matcher and the cancellation, the lines the scanner yields are
  the concatenation of non-empty groups \<open>gs\<close>, one for each flush, followed by a rest that
  is never flushed: each line lies in exactly one group, the groups follow one another in
  the order of the lines, without gap or overlap. The handler receives, in order, one record
  for each group whose joined lines pass the include expression, with the newline-join of
  the group as raw bytes and, formatted, as message; a group that fails the expression gives
  no record and none of its lines is in another group. When no cancellation is seen the rest
  is empty.
\<close>

theorem multiline_flushes_partition_lines:
  "\<exists>gs rest.
     scanAll (NewScanner stream) = concat gs @ rest \<and> [] \<notin> set gs \<and>
     handler (fst (snd (processMultilineLogStream s m ctx stream podName containerName namespace))) =
       handler s @
       map (\<lambda>g. OnLog (recordOf s podName containerName namespace g))
         (filter (\<lambda>g. includeMatches s (joinLines g)) gs) \<and>
     (True \<notin> set ctx \<longrightarrow> rest = [])"
  using multiline_groups [of stream s m ctx podName containerName namespace]
  unfolding records_def by blast

theorem multiline_flushes_partition_lines_witness:
  "True \<notin> set ([] :: bool list) \<and>
   (\<exists>gs. scanAll (NewScanner (lineReader [''a'', ''b'', ''c''])) = concat gs \<and> [] \<notin> set gs \<and>
     handler (fst (snd (processMultilineLogStream exampleStreamer alwaysMerge []
                          (lineReader [''a'', ''b'', ''c'']) ''web-0'' ''app'' ''default''))) =
       handler exampleStreamer @
       map (\<lambda>g. OnLog (recordOf exampleStreamer ''web-0'' ''app'' ''default'' g))
         (filter (\<lambda>g. includeMatches exampleStreamer (joinLines g)) gs))"
  using multiline_flushes_partition_lines
          [of "lineReader [''a'', ''b'', ''c'']" exampleStreamer alwaysMerge "[]"
              "''web-0''" "''app''" "''default''"]
  by auto

lemma never_merge_uncancelled:
  assumes nm: "\<forall>st previous next. \<not> fst (ShouldMerge m st previous next)"
    and nocancel: "\<not> cancelled ctx (length (scanAll (NewScanner stream)))"
  shows "handler (fst (snd (processLogStream (s\<lparr>matcher := Some m\<rparr>) ctx stream
                              podName containerName namespace))) =
         handler (fst (snd (processLogStream (s\<lparr>matcher := None\<rparr>) ctx stream
                              podName containerName namespace))) \<and>
         fst (processLogStream (s\<lparr>matcher := Some m\<rparr>) ctx stream podName containerName namespace) =
         fst (processLogStream (s\<lparr>matcher := None\<rparr>) ctx stream podName containerName namespace) \<and>
         handler (fst (snd (processLogStream (s\<lparr>matcher := None\<rparr>) ctx stream
                              podName containerName namespace))) =
           handler s @
           map (\<lambda>l. OnLog (recordOf s podName containerName namespace [l]))
             (filter (includeMatches s) (scanAll (NewScanner stream)))"
proof -
  let ?lines = "scanAll (NewScanner stream)"
  let ?final = "scanEnd (NewScanner stream)"
  let ?sm = "s\<lparr>matcher := Some m\<rparr>" and ?sn = "s\<lparr>matcher := None\<rparr>"
  let ?st0 = "\<lparr>buffer = [], rawBuffer = [], lastLine = []\<rparr>"
  let ?recs = "records s podName containerName namespace (map (\<lambda>l. [l]) ?lines)"
  \<comment> \<open>the single-line path\<close>
  have single: "processLogStream ?sn ctx stream podName containerName namespace =
                  (case afterScan (?sn\<lparr>handler := handler s @ ?recs\<rparr>) ?final podName of
                     (e, s1) \<Rightarrow> (e, s1, drop (length ?lines) ctx))"
    using nocancel
    by (simp add: processLogStream_def singleLineLoop_eq singleLineResult_def
          singleLineSteps_records)
  \<comment> \<open>the multi-line path\<close>
  obtain s1 m1 st1 where steps:
    "multilineSteps ?sm m podName containerName namespace ?st0 ?lines = (s1, m1, st1)"
    by (cases "multilineSteps ?sm m podName containerName namespace ?st0 ?lines")
  have never: "s1 = ?sm\<lparr>handler := handler s @ records s podName containerName namespace
                                              (map (\<lambda>l. [l]) (butlast ?lines))\<rparr> \<and>
               rawBuffer st1 = buffer st1 \<and>
               buffer st1 = (if ?lines = [] then [] else [last ?lines])"
    using steps_never [OF nm _ _ steps] by simp
  have multi: "processLogStream ?sm ctx stream podName containerName namespace =
                 (case afterScan (?sm\<lparr>handler := handler s @ ?recs\<rparr>) ?final podName of
                    (e, s3) \<Rightarrow> (e, s3\<lparr>matcher := Some m1\<rparr>, drop (length ?lines) ctx))"
  proof (cases "?lines = []")
    case True
    with nocancel steps never show ?thesis
      by (simp add: processLogStream_def processMultilineLogStream_def multilineLoop_eq
            multilineResult_def flush_groups)
  next
    case False
    then have "map (\<lambda>l. [l]) (butlast ?lines @ [last ?lines]) = map (\<lambda>l. [l]) ?lines"
      by simp
    then have "map (\<lambda>l. [l]) ?lines = map (\<lambda>l. [l]) (butlast ?lines) @ [[last ?lines]]"
      by (simp only: map_append list.simps)
    then have folded:
      "records s podName containerName namespace (map (\<lambda>l. [l]) (butlast ?lines)) @
       records s podName containerName namespace [[last ?lines]] = ?recs"
      by (simp add: records_append)
    from never False have s1: "s1 = ?sm\<lparr>handler := handler s @
         records s podName containerName namespace (map (\<lambda>l. [l]) (butlast ?lines))\<rparr>"
      and raw1: "rawBuffer st1 = buffer st1" and b1: "buffer st1 = [last ?lines]"
      by simp_all
    have fl: "flush s1 podName containerName namespace st1 =
               (?sm\<lparr>handler := handler s @ ?recs\<rparr>, st1\<lparr>buffer := [], rawBuffer := []\<rparr>)"
      by (simp add: flush_groups [OF raw1] b1 s1 folded)
    show ?thesis
      using nocancel steps fl
      by (simp add: processLogStream_def processMultilineLogStream_def multilineLoop_eq
            multilineResult_def)
  qed
  have recs: "?recs = map (\<lambda>l. OnLog (recordOf s podName containerName namespace [l]))
                        (filter (includeMatches s) ?lines)"
    by (simp add: records_def filter_map comp_def)
  show ?thesis
    unfolding single multi
    by (simp add: split_beta afterScan_handler recs [symmetric]
          afterScan_error [of "?sm\<lparr>handler := handler s @ ?recs\<rparr>" _ _
                              "?sn\<lparr>handler := handler s @ ?recs\<rparr>"])
qed

text \<open>
  C7. With a matcher whose \<^verbatim>\<open>ShouldMerge\<close> returns false for every pair, in whatever state
  it is, and when no cancellation is seen during the run, the multi-line path hands the
  handler the same callbacks as the single-line path on the same stream and returns the same
  error: one record for each scanned line that passes the include expression, in order.
\<close>

theorem never_merge_is_single_line:
  assumes nm: "\<forall>st previous next. \<not> fst (ShouldMerge m st previous next)"
    and nc: "True \<notin> set ctx"
  shows "handler (fst (snd (processLogStream (s\<lparr>matcher := Some m\<rparr>) ctx stream
                              podName containerName namespace))) =
         handler (fst (snd (processLogStream (s\<lparr>matcher := None\<rparr>) ctx stream
                              podName containerName namespace))) \<and>
         fst (processLogStream (s\<lparr>matcher := Some m\<rparr>) ctx stream podName containerName namespace) =
         fst (processLogStream (s\<lparr>matcher := None\<rparr>) ctx stream podName containerName namespace) \<and>
         handler (fst (snd (processLogStream (s\<lparr>matcher := None\<rparr>) ctx stream
                              podName containerName namespace))) =
           handler s @
           map (\<lambda>l. OnLog (recordOf s podName containerName namespace [l]))
             (filter (includeMatches s) (scanAll (NewScanner stream)))"
  using never_merge_uncancelled [OF nm not_cancelled [OF nc]] .

theorem never_merge_is_single_line_witness:
  "(\<forall>st previous next. \<not> fst (ShouldMerge neverMerge st previous next)) \<and>
   True \<notin> set ([] :: bool list) \<and>
   handler (fst (snd (processLogStream (exampleStreamer\<lparr>matcher := Some neverMerge\<rparr>) []
                        (lineReader [''a'', ''b'']) ''web-0'' ''app'' ''default''))) =
   handler (fst (snd (processLogStream (exampleStreamer\<lparr>matcher := None\<rparr>) []
                        (lineReader [''a'', ''b'']) ''web-0'' ''app'' ''default'')))"
proof -
  have a: "\<forall>st previous next. \<not> fst (ShouldMerge neverMerge st previous next)"
    by (simp add: neverMerge_def)
  have b: "True \<notin> set ([] :: bool list)" by simp
  from never_merge_is_single_line [OF a b] a b show ?thesis by blast
qed

text \<open>
  C4 fails on the code for \<^verbatim>\<open>maxMultilines = 1\<close>, a value \<^verbatim>\<open>NewStreamer\<close> accepts: the
  length of the buffer is compared with \<^verbatim>\<open>maxMultilines\<close> only after a merge, so the first
  line of a buffer goes in unchecked. With a matcher that always merges, the lines a, b, c
  give a record of the two lines a and b, then the record c.
\<close>

theorem maxMultilines_one_exceeded:
  "NewStreamer (exampleConfig\<lparr>Matcher := Some alwaysMerge, MaxMultilines := 1\<rparr>) =
     Inr (exampleStreamer\<lparr>matcher := Some alwaysMerge, maxMultilines := 1\<rparr>) \<and>
   messages (handler (fst (snd (processLogStream
       (exampleStreamer\<lparr>matcher := Some alwaysMerge, maxMultilines := 1\<rparr>) []
       (lineReader [''a'', ''b'', ''c'']) ''web-0'' ''app'' ''default'')))) =
     [''a\<newline>b'', ''c'']"
proof (rule conjI)
  show "NewStreamer (exampleConfig\<lparr>Matcher := Some alwaysMerge, MaxMultilines := 1\<rparr>) =
          Inr (exampleStreamer\<lparr>matcher := Some alwaysMerge, maxMultilines := 1\<rparr>)"
    by (simp add: NewStreamer_def exampleConfig_def exampleStreamer_def)
  show "messages (handler (fst (snd (processLogStream
          (exampleStreamer\<lparr>matcher := Some alwaysMerge, maxMultilines := 1\<rparr>) []
          (lineReader [''a'', ''b'', ''c'']) ''web-0'' ''app'' ''default'')))) =
        [''a\<newline>b'', ''c'']"
    by code_simp
qed

text \<open>
  From \<^verbatim>\<open>maxMultilines = 2\<close> on, every record is made of at least one and at most
  \<^verbatim>\<open>maxMultilines\<close> lines, whatever the stream, the matcher and the cancellation. With
  \<^verbatim>\<open>maxMultilines = 3\<close> and a matcher that always merges, ten lines give records of
  3, 3, 3 and 1 lines.
\<close>

lemma multiline_record_sizes:
  assumes "2 \<le> maxMultilines s"
  shows "\<exists>gs. list_all (\<lambda>g. 1 \<le> length g \<and> int (length g) \<le> maxMultilines s) gs \<and>
           handler (fst (snd (processMultilineLogStream s m ctx stream podName containerName
                                namespace))) =
             handler s @ records s podName containerName namespace gs"
proof -
  from multiline_groups [of stream s m ctx podName containerName namespace]
  obtain gs where ne: "[] \<notin> set gs" and b: "list_all (\<lambda>g. int (length g) \<le> bound s) gs"
    and h: "handler (fst (snd (processMultilineLogStream s m ctx stream podName containerName
                                 namespace))) =
              handler s @ records s podName containerName namespace gs"
    by blast
  have "bound s = maxMultilines s" using assms by (simp add: bound_def)
  with ne b have "list_all (\<lambda>g. 1 \<le> length g \<and> int (length g) \<le> maxMultilines s) gs"
    by (auto simp: list_all_iff Suc_le_eq)
  with h show ?thesis by blast
qed

lemma bounded_multiline_example:
  "messages (handler (fst (snd (processLogStream
       (exampleStreamer\<lparr>matcher := Some alwaysMerge, maxMultilines := 3\<rparr>) []
       (lineReader [''L1'', ''L2'', ''L3'', ''L4'', ''L5'', ''L6'', ''L7'', ''L8'', ''L9'', ''L10''])
       ''web-0'' ''app'' ''default'')))) =
     [''L1\<newline>L2\<newline>L3'', ''L4\<newline>L5\<newline>L6'', ''L7\<newline>L8\<newline>L9'', ''L10'']"
  by code_simp


section \<open>The follower and the end of a stream\<close>







section \<open>Retries of the follower\<close>

text \<open>
  C5. With \<^verbatim>\<open>MaxRetries = 0\<close>, a follower that is not cancelled when it starts and whose
  first \<^verbatim>\<open>req.Stream\<close> fails returns after that one attempt: it has reported the failure
  as a transient error, then the one permanent error "exceeded maximum retries", and has not
  slept. And in any turn of any follower, an open that succeeds sets the retry counter to zero.
\<close>

theorem follower_without_retries:
  assumes "MaxRetries (retryPolicy s) = 0" and "fst (ctxDone ctx) = False"
  shows "followerLoop s ctx (Inl e # rest) podName containerName namespace (newFollower s) =
           (Exited,
            s\<lparr>handler := handler s @
               [OnError (NewLogStreamError e False (streamFailedReason podName containerName)),
                OnError (NewLogStreamError (GoError ''exceeded maximum retries'') True
                           (retriesExceededReason podName containerName))]\<rparr>,
            (newFollower s)\<lparr>attempts := 1, retry := 1\<rparr>) \<and>
         attempts (snd (snd (followerLoop s ctx (Inl e # rest) podName containerName namespace
                               (newFollower s)))) = 1 \<and>
         slept (snd (snd (followerLoop s ctx (Inl e # rest) podName containerName namespace
                            (newFollower s)))) = [] \<and>
         retry (followerOf (followerIteration s' ctx' (Inr stream) podName' containerName'
                              namespace' f)) = 0"
proof -
  obtain ctx1 where sel: "ctxDone ctx = (False, ctx1)"
    using assms(2) by (cases "ctxDone ctx") simp
  have "followerIteration s ctx1 (Inl e) podName containerName namespace (newFollower s) =
          Return
            (s\<lparr>handler := handler s @
               [OnError (NewLogStreamError e False (streamFailedReason podName containerName)),
                OnError (NewLogStreamError (GoError ''exceeded maximum retries'') True
                           (retriesExceededReason podName containerName))]\<rparr>)
            ((newFollower s)\<lparr>attempts := 1, retry := 1\<rparr>)"
    using assms(1)
    by (simp add: followerIteration_def isPermError_def report_def newFollower_def Let_def)
  then have loop: "followerLoop s ctx (Inl e # rest) podName containerName namespace (newFollower s) =
           (Exited,
            s\<lparr>handler := handler s @
               [OnError (NewLogStreamError e False (streamFailedReason podName containerName)),
                OnError (NewLogStreamError (GoError ''exceeded maximum retries'') True
                           (retriesExceededReason podName containerName))]\<rparr>,
            (newFollower s)\<lparr>attempts := 1, retry := 1\<rparr>)"
    by (simp add: sel)
  have reset: "retry (followerOf (followerIteration s' ctx' (Inr stream) podName' containerName'
                              namespace' f)) = 0"
    by (simp add: followerIteration_def Let_def split: prod.splits bool.splits option.splits)
  from loop reset show ?thesis by (simp add: newFollower_def del: followerLoop.simps)
qed

theorem follower_without_retries_witness:
  "MaxRetries (retryPolicy exampleStreamer) = 0 \<and> fst (ctxDone []) = False \<and>
   followerLoop exampleStreamer [] [Inl (GoError ''connection refused'')]
       ''web-0'' ''app'' ''default'' (newFollower exampleStreamer) =
     (Exited,
      exampleStreamer\<lparr>handler := handler exampleStreamer @
         [OnError (NewLogStreamError (GoError ''connection refused'') False
                     (streamFailedReason ''web-0'' ''app'')),
          OnError (NewLogStreamError (GoError ''exceeded maximum retries'') True
                     (retriesExceededReason ''web-0'' ''app''))]\<rparr>,
      (newFollower exampleStreamer)\<lparr>attempts := 1, retry := 1\<rparr>) \<and>
   attempts (snd (snd (followerLoop exampleStreamer [] [Inl (GoError ''connection refused'')]
                         ''web-0'' ''app'' ''default'' (newFollower exampleStreamer)))) = 1 \<and>
   slept (snd (snd (followerLoop exampleStreamer [] [Inl (GoError ''connection refused'')]
                      ''web-0'' ''app'' ''default'' (newFollower exampleStreamer)))) = []"
proof -
  have a: "MaxRetries (retryPolicy exampleStreamer) = 0"
    by (simp add: exampleStreamer_def examplePolicy_def)
  have b: "fst (ctxDone []) = False" by (simp add: ctxDone_def)
  from follower_without_retries [OF a b] a b show ?thesis by blast
qed


section \<open>The shipped matchers\<close>

text \<open>
  C8, as the claim states it, fails: \<^verbatim>\<open>AtRegex\<close> is \<^verbatim>\<open>^\s+at \<close>, which asks for at least
  one white space character before \<^verbatim>\<open>"at "\<close>. A line that starts with \<^verbatim>\<open>"at "\<close> itself,
  which the claim's "optional spaces" admits, is not merged.
\<close>

theorem at_without_indentation_not_merged:
  "claimedShouldMerge ''java.lang.IllegalStateException: boom'' ''at com.example.A.m(A.java:1)'' \<and>
   \<not> JavaStackMatcher_ShouldMerge NewJavaStackMatcher
       ''java.lang.IllegalStateException: boom'' ''at com.example.A.m(A.java:1)''"
  by code_simp

lemma AtRegex_iff:
  "AtRegex NewJavaStackMatcher l \<longleftrightarrow>
     (\<exists>ws rest. ws \<noteq> [] \<and> list_all reSpace ws \<and> l = ws @ ''at '' @ rest)"
proof
  assume "AtRegex NewJavaStackMatcher l"
  then have ne: "takeWhile reSpace l \<noteq> []" and pre: "prefix ''at '' (dropWhile reSpace l)"
    by (simp_all add: NewJavaStackMatcher_def)
  from pre obtain rest where "dropWhile reSpace l = ''at '' @ rest" by (auto simp: prefix_def)
  then have "l = takeWhile reSpace l @ ''at '' @ rest"
    by (metis takeWhile_dropWhile_id)
  moreover have "list_all reSpace (takeWhile reSpace l)"
    by (simp add: list_all_iff) (meson set_takeWhileD)
  ultimately show "\<exists>ws rest. ws \<noteq> [] \<and> list_all reSpace ws \<and> l = ws @ ''at '' @ rest"
    using ne by blast
next
  assume "\<exists>ws rest. ws \<noteq> [] \<and> list_all reSpace ws \<and> l = ws @ ''at '' @ rest"
  then obtain ws rest where ne: "ws \<noteq> []" and all: "list_all reSpace ws"
    and l: "l = ws @ ''at '' @ rest" by blast
  have a: "\<not> reSpace (CHR ''a'')" by (simp add: reSpace_def)
  from all have "takeWhile reSpace l = ws" "dropWhile reSpace l = ''at '' @ rest"
    using a by (simp_all add: l list_all_iff takeWhile_append2 dropWhile_append2)
  with ne show "AtRegex NewJavaStackMatcher l"
    by (simp add: NewJavaStackMatcher_def)
qed

text \<open>
  C8, amended. \<^verbatim>\<open>ShouldMerge(previous, next)\<close> of the matcher \<^verbatim>\<open>NewJavaStackMatcher\<close>
  returns is true exactly when \<open>next\<close> is not empty or white space only and \<open>next\<close> starts
  with a tab, or with one or more white space characters followed by \<^verbatim>\<open>"at "\<close>, or with
  \<^verbatim>\<open>"Caused by:"\<close>, or \<open>previous\<close>, trimmed, ends with a backslash.
\<close>

theorem JavaStackMatcher_ShouldMerge_iff:
  "JavaStackMatcher_ShouldMerge NewJavaStackMatcher previous next \<longleftrightarrow>
     TrimSpace next \<noteq> [] \<and>
     (prefix [CHR 0x09] next \<or>
      (\<exists>ws rest. ws \<noteq> [] \<and> list_all reSpace ws \<and> next = ws @ ''at '' @ rest) \<or>
      prefix ''Caused by:'' next \<or>
      suffix [CHR 0x5C] (TrimSpace previous))"
proof -
  have "JavaStackMatcher_ShouldMerge NewJavaStackMatcher previous next \<longleftrightarrow>
          TrimSpace next \<noteq> [] \<and>
          (prefix [CHR 0x09] next \<or> AtRegex NewJavaStackMatcher next \<or>
           prefix ''Caused by:'' next \<or> suffix [CHR 0x5C] (TrimSpace previous))"
    by (simp add: JavaStackMatcher_ShouldMerge_def HasSuffix_def)
       (simp add: NewJavaStackMatcher_def)
  then show ?thesis by (simp only: AtRegex_iff)
qed

text \<open>
  C9, as the claim states it, fails for the JSON matcher, which keeps its count of open braces
  from one call to the next: a new matcher does not merge \<open>b\<close> after \<open>a\<close>; after a call with
  an opening brace as \<open>previous\<close> the same call returns true.
\<close>

theorem JSONMatcher_depends_on_earlier_calls:
  "fst (callShouldMerge jsonMatcher ''a'' ''b'') = False \<and>
   fst (callShouldMerge (afterCalls jsonMatcher [(''{'', ''x'')]) ''a'' ''b'') = True"
  by code_simp

lemma afterCalls_javaStackMatcher: "afterCalls javaStackMatcher calls = javaStackMatcher"
proof (induction calls)
  case Nil
  show ?case by simp
next
  case (Cons call calls)
  have "snd (callShouldMerge javaStackMatcher (fst call) (snd call)) = javaStackMatcher"
    by (simp add: callShouldMerge_def javaStackMatcher_def)
  with Cons show ?case by (cases call) simp
qed

lemma afterCalls_method: "ShouldMerge (afterCalls m calls) = ShouldMerge m"
  by (induction m calls rule: afterCalls.induct) (simp_all add: callShouldMerge_def split: prod.splits)

text \<open>
  C9, amended. The result of \<^verbatim>\<open>ShouldMerge\<close> of the Java stack matcher is a function of
  \<open>previous\<close> and \<open>next\<close>, whatever calls came before. The result of \<^verbatim>\<open>ShouldMerge\<close> of
  the JSON matcher is a function of \<open>previous\<close> and of the fields of the matcher, as the calls
  before have left them; it does not depend on \<open>next\<close>.
\<close>

theorem shipped_matchers_purity:
  "fst (callShouldMerge (afterCalls javaStackMatcher calls) previous next) =
     JavaStackMatcher_ShouldMerge NewJavaStackMatcher previous next \<and>
   fst (callShouldMerge (afterCalls jsonMatcher calls) previous next) =
     fst (JSONMatcher_ShouldMerge (mstate (afterCalls jsonMatcher calls)) previous next')"
proof
  show "fst (callShouldMerge (afterCalls javaStackMatcher calls) previous next) =
          JavaStackMatcher_ShouldMerge NewJavaStackMatcher previous next"
    by (simp add: afterCalls_javaStackMatcher) (simp add: callShouldMerge_def javaStackMatcher_def)
  have "ShouldMerge (afterCalls jsonMatcher calls) = JSONMatcher_ShouldMerge"
    by (simp add: afterCalls_method) (simp add: jsonMatcher_def)
  moreover have "JSONMatcher_ShouldMerge m previous next = JSONMatcher_ShouldMerge m previous next'"
    for m by (simp add: JSONMatcher_ShouldMerge_def)
  ultimately show "fst (callShouldMerge (afterCalls jsonMatcher calls) previous next) =
     fst (JSONMatcher_ShouldMerge (mstate (afterCalls jsonMatcher calls)) previous next')"
    by (simp add: callShouldMerge_def split: prod.splits)
qed


section \<open>Line-aligned reads and cancelled runs\<close>

text \<open>
  When every \<^verbatim>\<open>Read\<close> returns exactly one line with its newline, the scanner yields the
  lines of the source.
\<close>

lemma Scan_lineReader:
  assumes "err sc = None" and "reader sc = lineReader (l # ls)" and "newline \<notin> set l"
  shows "Scan sc = (True, sc\<lparr>reader := lineReader ls, token := l\<rparr>)"
proof -
  from assms(3) have "takeWhile (\<lambda>c. c \<noteq> newline) (l @ [newline]) = l"
    by (induction l) auto
  with assms(1,2) show ?thesis by (simp add: Scan_def lineReader_def)
qed

lemma scanAll_lineReader_gen:
  "err sc = None \<Longrightarrow> reader sc = lineReader ls \<Longrightarrow> list_all (\<lambda>l. newline \<notin> set l) ls \<Longrightarrow>
   scanAll sc = ls"
proof (induction ls arbitrary: sc)
  case Nil
  then have "Scan sc = (False, sc\<lparr>reader := [], err := Some EOF\<rparr>)"
    by (simp add: Scan_def lineReader_def)
  then show ?case by (simp add: scanAll_False)
next
  case (Cons l ls)
  from Cons.prems have step: "Scan sc = (True, sc\<lparr>reader := lineReader ls, token := l\<rparr>)"
    by (simp add: Scan_lineReader)
  have "scanAll (sc\<lparr>reader := lineReader ls, token := l\<rparr>) = ls"
    using Cons.prems by (intro Cons.IH) simp_all
  with step show ?case by (simp add: scanAll_True Text_def)
qed

lemma scanAll_lineReader:
  "list_all (\<lambda>l. newline \<notin> set l) ls \<Longrightarrow> scanAll (NewScanner (lineReader ls)) = ls"
  by (rule scanAll_lineReader_gen) (simp_all add: NewScanner_def)

text \<open>
  When a cancellation is seen, the multi-line path with a matcher that never merges has
  handed over a prefix of what the single-line path has: the line in its buffer is lost.
\<close>

lemma never_merge_cancelled:
  assumes nm: "\<forall>st previous next. \<not> fst (ShouldMerge m st previous next)"
  shows "prefix
           (handler (fst (snd (processLogStream (s\<lparr>matcher := Some m\<rparr>) ctx stream
                                 podName containerName namespace))))
           (handler (fst (snd (processLogStream (s\<lparr>matcher := None\<rparr>) ctx stream
                                 podName containerName namespace))))"
proof -
  let ?lines = "scanAll (NewScanner stream)"
  let ?sm = "s\<lparr>matcher := Some m\<rparr>" and ?sn = "s\<lparr>matcher := None\<rparr>"
  let ?st0 = "\<lparr>buffer = [], rawBuffer = [], lastLine = []\<rparr>"
  show ?thesis
  proof (cases "cancelled ctx (length ?lines)")
    case False
    with never_merge_uncancelled [OF nm, of ctx stream s podName containerName namespace]
    show ?thesis by simp
  next
    case c: True
    let ?ls = "take (seen ctx) ?lines"
    obtain s1 m1 st1 where steps:
      "multilineSteps ?sm m podName containerName namespace ?st0 ?ls = (s1, m1, st1)"
      by (cases "multilineSteps ?sm m podName containerName namespace ?st0 ?ls")
    have never: "s1 = ?sm\<lparr>handler := handler s @ records s podName containerName namespace
                                              (map (\<lambda>l. [l]) (butlast ?ls))\<rparr>"
      using steps_never [OF nm _ _ steps] by simp
    have multi: "handler (fst (snd (processLogStream ?sm ctx stream podName containerName namespace)))
                 = handler s @ records s podName containerName namespace (map (\<lambda>l. [l]) (butlast ?ls))"
      using c steps never
      by (simp add: processLogStream_def processMultilineLogStream_def multilineLoop_eq
            multilineResult_def)
    have single: "handler (fst (snd (processLogStream ?sn ctx stream podName containerName namespace)))
                 = handler s @ records s podName containerName namespace (map (\<lambda>l. [l]) ?ls)"
      using c
      by (simp add: processLogStream_def singleLineLoop_eq singleLineResult_def
            singleLineSteps_records)
    have "prefix (map (\<lambda>l. [l]) (butlast ?ls)) (map (\<lambda>l. [l]) ?ls)"
      by (simp add: map_mono_prefix prefixeq_butlast)
    then obtain r where "map (\<lambda>l. [l]) ?ls = map (\<lambda>l. [l]) (butlast ?ls) @ r"
      by (auto simp: prefix_def)
    then have "records s podName containerName namespace (map (\<lambda>l. [l]) ?ls) =
               records s podName containerName namespace (map (\<lambda>l. [l]) (butlast ?ls)) @
               records s podName containerName namespace r"
      by (simp add: records_append)
    then show ?thesis unfolding multi single by simp
  qed
qed

end
